theory Spec2Isabelle
  imports Complex_Main
begin

text \<open>
  A shallow embedding of the status-bar program \<^verbatim>\<open>gods\<close>: the key=value store
  (\<^verbatim>\<open>parseFile\<close>, \<^verbatim>\<open>SearchForInt\<close>, \<^verbatim>\<open>GetInt\<close>), the rate formatter \<^verbatim>\<open>fixed\<close>, and the
  network, memory and power samplers. The source holds two revisions of \<^verbatim>\<open>gods.go\<close>:
  an older one that parses the uevent file of each battery and shows network activity as
  arrows, and a later one that reads one file per battery field and shows rates. Where
  both define a function of the same name and differ, the later one keeps the name and
  the older one has a suffix (\<open>updatePower_uevent\<close>, \<open>updateNetUse_arrows\<close>).
  What the operating system delivers (file contents, directory listings, the results of
  \<^verbatim>\<open>fmt.Sscanf\<close>) is an argument of the functions; mutable globals are passed and
  returned; a run-time panic is a value.
\<close>

section \<open>Go primitives used by the status-bar program\<close>

subsection \<open>Machine integers\<close>

text \<open>
  Go's \<^verbatim>\<open>int\<close> is a 64-bit two's-complement integer on the platforms the program
  runs on. Values are kept as \<open>int\<close> and every arithmetic result is wrapped into the
  signed 64-bit range. Division truncates towards zero; a zero divisor panics in Go, so
  callers of \<open>go_quo\<close> test the divisor first.
\<close>

definition wrap64 :: "int \<Rightarrow> int" where
  "wrap64 x = (x + 2 ^ 63) mod 2 ^ 64 - 2 ^ 63"

definition go_add :: "int \<Rightarrow> int \<Rightarrow> int" where
  "go_add a b = wrap64 (a + b)"

definition go_sub :: "int \<Rightarrow> int \<Rightarrow> int" where
  "go_sub a b = wrap64 (a - b)"

definition go_mul :: "int \<Rightarrow> int \<Rightarrow> int" where
  "go_mul a b = wrap64 (a * b)"

definition trunc_quo :: "int \<Rightarrow> int \<Rightarrow> int" where
  "trunc_quo a b = sgn a * sgn b * (\<bar>a\<bar> div \<bar>b\<bar>)"

definition go_quo :: "int \<Rightarrow> int \<Rightarrow> int" where
  "go_quo a b = wrap64 (trunc_quo a b)"

subsection \<open>Strings\<close>

text \<open>
  A Go string is a byte sequence: \<open>string\<close> (a list of 8-bit characters). Bytes that
  are not printable ASCII (the colour escapes 0x01, 0x03, 0x04, 0x06 and the UTF-8
  encoded icons of the source) are written \<open>CHR 0x..\<close>.
\<close>

definition HasPrefix :: "string \<Rightarrow> string \<Rightarrow> bool" where
  "HasPrefix s p = (take (length p) s = p)"

text \<open>\<^verbatim>\<open>strings.Split(s, "=")\<close> for a one-byte separator: cuts at every occurrence.\<close>

fun Split :: "string \<Rightarrow> char \<Rightarrow> string list" where
  "Split [] sep = [[]]"
| "Split (c # cs) sep =
     (if c = sep then [] # Split cs sep
      else (case Split cs sep of
              [] \<Rightarrow> [[c]]
            | p # ps \<Rightarrow> (c # p) # ps))"

text \<open>
  \<^verbatim>\<open>strings.TrimSpace\<close> removes leading and trailing white space as defined by
  Unicode. On a byte string these are the six ASCII space bytes and the UTF-8 encodings
  of U+0085, U+00A0, U+1680, U+2000 to U+200A, U+2028, U+2029, U+202F, U+205F, U+3000.
\<close>

definition unicode_spaces :: "string list" where
  "unicode_spaces =
     [[CHR 0x09], [CHR 0x0A], [CHR 0x0B], [CHR 0x0C], [CHR 0x0D], [CHR 0x20],
      [CHR 0xC2, CHR 0x85], [CHR 0xC2, CHR 0xA0],
      [CHR 0xE1, CHR 0x9A, CHR 0x80],
      [CHR 0xE2, CHR 0x80, CHR 0x80], [CHR 0xE2, CHR 0x80, CHR 0x81],
      [CHR 0xE2, CHR 0x80, CHR 0x82], [CHR 0xE2, CHR 0x80, CHR 0x83],
      [CHR 0xE2, CHR 0x80, CHR 0x84], [CHR 0xE2, CHR 0x80, CHR 0x85],
      [CHR 0xE2, CHR 0x80, CHR 0x86], [CHR 0xE2, CHR 0x80, CHR 0x87],
      [CHR 0xE2, CHR 0x80, CHR 0x88], [CHR 0xE2, CHR 0x80, CHR 0x89],
      [CHR 0xE2, CHR 0x80, CHR 0x8A],
      [CHR 0xE2, CHR 0x80, CHR 0xA8], [CHR 0xE2, CHR 0x80, CHR 0xA9],
      [CHR 0xE2, CHR 0x80, CHR 0xAF],
      [CHR 0xE2, CHR 0x81, CHR 0x9F],
      [CHR 0xE3, CHR 0x80, CHR 0x80]]"

fun strip_any :: "string list \<Rightarrow> string \<Rightarrow> string option" where
  "strip_any [] s = None"
| "strip_any (q # qs) s =
     (if q \<noteq> [] \<and> take (length q) s = q then Some (drop (length q) s)
      else strip_any qs s)"

function trim_left :: "string list \<Rightarrow> string \<Rightarrow> string" where
  "trim_left qs s = (case strip_any qs s of None \<Rightarrow> s | Some r \<Rightarrow> trim_left qs r)"
  by pat_completeness auto
termination
proof (relation "measure (\<lambda>(qs, s). length s)")
  show "wf (measure (\<lambda>(qs :: string list, s :: string). length s))"
    by simp
next
  fix qs :: "string list" and s r :: string
  assume "strip_any qs s = Some r"
  then have "length r < length s"
  proof (induction qs)
    case Nil
    then show ?case by simp
  next
    case (Cons q qs)
    show ?case
    proof (cases "q \<noteq> [] \<and> take (length q) s = q")
      case True
      then have "length (take (length q) s) = length q"
        by simp
      then have "length q \<le> length s"
        by simp
      moreover have "r = drop (length q) s"
        using Cons.prems True by simp
      ultimately show ?thesis
        using True by (cases q) auto
    next
      case False
      then show ?thesis
        using Cons by auto
    qed
  qed
  then show "((qs, r), (qs, s)) \<in> measure (\<lambda>(qs, s). length s)"
    by simp
qed

definition TrimSpace :: "string \<Rightarrow> string" where
  "TrimSpace s =
     rev (trim_left (map rev unicode_spaces) (rev (trim_left unicode_spaces s)))"

text \<open>
  \<^verbatim>\<open>strconv.Atoi\<close>: an optional sign followed by one or more decimal digits, with a
  value in the signed 64-bit range; everything else is an error (\<open>None\<close>).
\<close>

definition digit_of :: "char \<Rightarrow> nat option" where
  "digit_of = map_of
     [(CHR ''0'', 0), (CHR ''1'', 1), (CHR ''2'', 2), (CHR ''3'', 3), (CHR ''4'', 4),
      (CHR ''5'', 5), (CHR ''6'', 6), (CHR ''7'', 7), (CHR ''8'', 8), (CHR ''9'', 9)]"

fun atoi_digits :: "string \<Rightarrow> nat \<Rightarrow> nat option" where
  "atoi_digits [] n = Some n"
| "atoi_digits (c # cs) n =
     (case digit_of c of None \<Rightarrow> None | Some d \<Rightarrow> atoi_digits cs (n * 10 + d))"

definition Atoi :: "string \<Rightarrow> int option" where
  "Atoi s =
     (case s of
        [] \<Rightarrow> None
      | c # cs \<Rightarrow>
          (let body = (if c = CHR ''-'' \<or> c = CHR ''+'' then cs else s) in
           if body = [] then None
           else (case atoi_digits body 0 of
                   None \<Rightarrow> None
                 | Some n \<Rightarrow>
                     (let v = (if c = CHR ''-'' then - int n else int n) in
                      if - (2 ^ 63) \<le> v \<and> v \<le> 2 ^ 63 - 1 then Some v else None))))"

section \<open>The key=value store\<close>

text \<open>
  \<^verbatim>\<open>type Hash struct { values map[string]string }\<close>. A file opened with
  \<^verbatim>\<open>os.Open\<close> and read with a \<^verbatim>\<open>bufio.Scanner\<close> is represented by the list of lines
  the scanner delivers, \<open>None\<close> when the file cannot be opened.
\<close>

record Hash =
  hvalues :: "string \<rightharpoonup> string"

definition empty_hash :: Hash where
  "empty_hash = \<lparr>hvalues = Map.empty\<rparr>"

text \<open>The body of the scanning loop of \<^verbatim>\<open>parseFile\<close>, for one line.\<close>

definition parseLine :: "Hash \<Rightarrow> string \<Rightarrow> Hash" where
  "parseLine hash line =
     (let buffer = Split line (CHR ''='') in
      if length buffer = 2
      then hash\<lparr>hvalues := (hvalues hash)(buffer ! 0 \<mapsto> buffer ! 1)\<rparr>
      else hash)"

fun parseLines :: "Hash \<Rightarrow> string list \<Rightarrow> Hash" where
  "parseLines hash [] = hash"
| "parseLines hash (line # rest) = parseLines (parseLine hash line) rest"

definition parseFile :: "(string \<Rightarrow> string list option) \<Rightarrow> string \<Rightarrow> Hash" where
  "parseFile open_lines path =
     (case open_lines path of
        None \<Rightarrow> empty_hash
      | Some ls \<Rightarrow> parseLines empty_hash ls)"

definition GetInt :: "Hash \<Rightarrow> string \<Rightarrow> int" where
  "GetInt h field =
     (case Atoi (case hvalues h field of None \<Rightarrow> [] | Some v \<Rightarrow> v) of
        Some convertedValue \<Rightarrow> convertedValue
      | None \<Rightarrow> 0)"

fun SearchForInt :: "Hash \<Rightarrow> string list \<Rightarrow> int" where
  "SearchForInt h [] = 0"
| "SearchForInt h (field # rest) =
     (if hvalues h field \<noteq> None then GetInt h field else SearchForInt h rest)"

section \<open>Formatting\<close>

text \<open>The pieces of \<^verbatim>\<open>fmt.Sprintf\<close> the program uses: \<^verbatim>\<open>%d\<close>, \<^verbatim>\<open>%3d\<close>, \<^verbatim>\<open>%02d\<close>.\<close>

definition digit_char :: "nat \<Rightarrow> char" where
  "digit_char d = ''0123456789'' ! d"

fun digits10 :: "nat \<Rightarrow> string" where
  "digits10 n = (if n < 10 then [digit_char n] else digits10 (n div 10) @ [digit_char (n mod 10)])"

declare digits10.simps [simp del]

definition pad_left :: "nat \<Rightarrow> char \<Rightarrow> string \<Rightarrow> string" where
  "pad_left w c s = replicate (w - length s) c @ s"

definition fmt_d :: "int \<Rightarrow> string" where
  "fmt_d n = (if n < 0 then ''-'' else []) @ digits10 (nat \<bar>n\<bar>)"

definition fmt_wd :: "nat \<Rightarrow> int \<Rightarrow> string" where
  "fmt_wd w n = pad_left w (CHR '' '') (fmt_d n)"

definition fmt_0wd :: "nat \<Rightarrow> int \<Rightarrow> string" where
  "fmt_0wd w n =
     (if n < 0 then ''-'' @ pad_left (w - 1) (CHR ''0'') (digits10 (nat \<bar>n\<bar>))
      else pad_left w (CHR ''0'') (digits10 (nat n)))"

section \<open>Single-precision floating point\<close>

text \<open>
  A finite \<^verbatim>\<open>float32\<close> is represented by its exact value, a fraction of two integers
  with a positive denominator (not necessarily in lowest terms). Every operation computes
  the exact result and rounds it to 24 significant bits, ties to even, as IEEE 754
  prescribes. The operands that occur (64-bit integers, their quotients, a product with
  60) stay far inside the normal exponent range, so neither overflow nor subnormal
  numbers arise.
\<close>

datatype float32 = F32 (num: int) (den: int)

fun bit_len :: "nat \<Rightarrow> nat" where
  "bit_len n = (if n = 0 then 0 else Suc (bit_len (n div 2)))"

declare bit_len.simps [simp del]

text \<open>\<open>flog2 p q\<close> is the exponent \<open>e\<close> with \<open>2^e \<le> p/q < 2^(e+1)\<close>, for \<open>p, q > 0\<close>.\<close>

definition flog2 :: "int \<Rightarrow> int \<Rightarrow> int" where
  "flog2 p q =
     (let bp = bit_len (nat p); bq = bit_len (nat q)
      in if q * 2 ^ bp \<le> p * 2 ^ bq then int bp - int bq else int bp - int bq - 1)"

text \<open>\<open>rhe_div p q\<close> is \<open>p/q\<close> rounded to the nearest integer, ties to even (\<open>p \<ge> 0\<close>, \<open>q > 0\<close>).\<close>

definition rhe_div :: "int \<Rightarrow> int \<Rightarrow> int" where
  "rhe_div p q =
     (let f = p div q; r = p mod q in
      if 2 * r < q then f
      else if q < 2 * r then f + 1
      else if even f then f else f + 1)"

text \<open>Rounding the fraction \<open>p/q\<close> (\<open>q > 0\<close>) to the nearest \<^verbatim>\<open>float32\<close>.\<close>

definition f32_round :: "int \<Rightarrow> int \<Rightarrow> float32" where
  "f32_round p q =
     (if p = 0 then F32 0 1
      else
        (let a = \<bar>p\<bar>;
             e = flog2 a q;
             m = (if e \<le> 23 then rhe_div (a * 2 ^ nat (23 - e)) q
                  else rhe_div a (q * 2 ^ nat (e - 23)))
         in if 23 \<le> e then F32 (sgn p * m * 2 ^ nat (e - 23)) 1
            else F32 (sgn p * m) (2 ^ nat (23 - e))))"

definition f32_of_int :: "int \<Rightarrow> float32" where
  "f32_of_int n = f32_round n 1"

text \<open>Quotient and product; the divisor is never zero where the program divides.\<close>

definition f32_quo :: "float32 \<Rightarrow> float32 \<Rightarrow> float32" where
  "f32_quo a b =
     (if num b < 0 then f32_round (- (num a * den b)) (- (den a * num b))
      else f32_round (num a * den b) (den a * num b))"

definition f32_mul :: "float32 \<Rightarrow> float32 \<Rightarrow> float32" where
  "f32_mul a b = f32_round (num a * num b) (den a * den b)"

definition f32_ge :: "float32 \<Rightarrow> float32 \<Rightarrow> bool" where
  "f32_ge a b = (num b * den a \<le> num a * den b)"

text \<open>
  \<^verbatim>\<open>int(x)\<close> for a float \<open>x\<close> truncates towards zero. When the truncated value does
  not fit the 64-bit integer, Go leaves the result to the implementation: it is the
  parameter \<open>ovf\<close>.
\<close>

definition int_of_f32 :: "(float32 \<Rightarrow> int) \<Rightarrow> float32 \<Rightarrow> int" where
  "int_of_f32 ovf x =
     (let i = sgn (num x) * (\<bar>num x\<bar> div den x)
      in if - (2 ^ 63) \<le> i \<and> i < 2 ^ 63 then i else ovf x)"

text \<open>
  \<^verbatim>\<open>%w.pf\<close> for a non-negative value: the exact decimal expansion rounded to \<open>p\<close>
  fraction digits, ties to even, padded with spaces to width \<open>w\<close>. The program only
  formats non-negative rates.
\<close>

definition fmt_f :: "nat \<Rightarrow> nat \<Rightarrow> float32 \<Rightarrow> string" where
  "fmt_f w p x =
     (let q = nat (rhe_div (num x * 10 ^ p) (den x));
          ip = q div 10 ^ p;
          fp = q mod 10 ^ p;
          body = digits10 ip @ (if p = 0 then [] else ''.'' @ pad_left p (CHR ''0'') (digits10 fp))
      in pad_left w (CHR '' '') body)"

text \<open>\<^verbatim>\<open>strings.Replace(s, old, new, 1)\<close> for a one-byte \<open>old\<close>.\<close>

fun Replace1 :: "string \<Rightarrow> char \<Rightarrow> string \<Rightarrow> string" where
  "Replace1 [] old new = []"
| "Replace1 (c # cs) old new = (if c = old then new @ cs else c # Replace1 cs old new)"

section \<open>Constants of the program\<close>

definition bpsSign :: string where "bpsSign = ''B/s''"
definition kibpsSign :: string where "kibpsSign = ''KiB/s''"
definition mibpsSign :: string where "mibpsSign = ''MiB/s''"
definition unpluggedSign :: string where "unpluggedSign = ''BAT''"
definition pluggedSign :: string where "pluggedSign = ''AC''"
definition cpuSign :: string where "cpuSign = ''CPU''"
definition memSign :: string where "memSign = ''MEM''"
definition netSign :: string where "netSign = ''NET''"
definition netReceivedSign :: string where "netReceivedSign = ''RX''"
definition netTransmittedSign :: string where "netTransmittedSign = ''TX''"
definition floatSeparator :: string where "floatSeparator = ''.''"
definition netDevs :: "string set" where "netDevs = {''enp0s25:'', ''wlp4s0:''}"

text \<open>The literal \<^verbatim>\<open>"\x03ERR\x01"\<close>: the word ERR between two colour escapes.\<close>

definition errMark :: string where
  "errMark = [CHR 0x03] @ ''ERR'' @ [CHR 0x01]"

section \<open>The rate formatter\<close>

text \<open>The choice of precision (the variable \<^verbatim>\<open>formated\<close>).\<close>

definition formated :: "float32 \<Rightarrow> string" where
  "formated spd =
     (if f32_ge spd (F32 100 1) then fmt_f 3 0 spd
      else if f32_ge spd (F32 10 1) then fmt_f 4 1 spd
      else '' '' @ fmt_f 3 1 spd)"

definition fixed :: "string \<Rightarrow> int \<Rightarrow> string" where
  "fixed pre rate =
     (if rate < 0 then pre @ '' '' @ errMark
      else
        (let spd = f32_of_int rate in
         if f32_ge spd (F32 (1000 * 1024 * 1024) 1) then [CHR 0x04] @ pre @ errMark
         else
           (let (spd', suf, pre') =
                  (if f32_ge spd (F32 (1000 * 1024) 1)
                   then (f32_quo spd (F32 (1024 * 1024) 1), mibpsSign,
                         [CHR 0x04] @ pre @ [CHR 0x01])
                   else if f32_ge spd (F32 1000 1)
                   then (f32_quo spd (F32 1024 1), kibpsSign, pre)
                   else (spd, bpsSign, pre))
            in pre' @ Replace1 (formated spd') (CHR ''.'') floatSeparator @ suf)))"

section \<open>The network sampler\<close>

text \<open>
  \<^verbatim>\<open>/proc/net/dev\<close> is read line by line; each line goes through
  \<^verbatim>\<open>fmt.Sscanf(line, "%s %d %d %d %d %d %d %d %d %d", &dev, &rx, &void, ..., &tx)\<close>.
  A line is represented by what that call stored: nothing, only \<open>dev\<close>, \<open>dev\<close> and
  \<open>rx\<close>, or all operands. The variables \<open>dev\<close>, \<open>rx\<close>, \<open>tx\<close> live outside the loop, so
  an operand that was not stored keeps the value of an earlier line.
\<close>

datatype netscan = ScanNone | ScanDev string | ScanDevRx string int | ScanAll string int int

record netvars =
  dev :: string
  rx :: int
  tx :: int
  rxNow :: int
  txNow :: int

record netstate =
  rxOld :: int
  txOld :: int

fun net_scan :: "netvars \<Rightarrow> netscan \<Rightarrow> netvars" where
  "net_scan v ScanNone = v"
| "net_scan v (ScanDev d) = v\<lparr>dev := d\<rparr>"
| "net_scan v (ScanDevRx d r) = v\<lparr>dev := d, rx := r\<rparr>"
| "net_scan v (ScanAll d r t) = v\<lparr>dev := d, rx := r, tx := t\<rparr>"

definition net_step :: "netvars \<Rightarrow> netscan \<Rightarrow> netvars" where
  "net_step v l =
     (let v' = net_scan v l in
      if dev v' \<in> netDevs
      then v'\<lparr>rxNow := go_add (rxNow v') (rx v'), txNow := go_add (txNow v') (tx v')\<rparr>
      else v')"

fun net_loop :: "netvars \<Rightarrow> netscan list \<Rightarrow> netvars" where
  "net_loop v [] = v"
| "net_loop v (l # ls) = net_loop (net_step v l) ls"

definition net_init :: netvars where
  "net_init = \<lparr>dev = [], rx = 0, tx = 0, rxNow = 0, txNow = 0\<rparr>"

text \<open>
  The revision with rates. The argument is \<open>None\<close> when \<^verbatim>\<open>os.Open\<close> fails. The
  deferred assignment to \<open>rxOld\<close>, \<open>txOld\<close> runs after the result string is built.
\<close>

definition updateNetUse :: "netscan list option \<Rightarrow> netstate \<Rightarrow> string \<times> netstate" where
  "updateNetUse file st =
     (case file of
        None \<Rightarrow>
          (netReceivedSign @ '' '' @ errMark @ '' '' @ netTransmittedSign @ '' '' @ errMark, st)
      | Some ls \<Rightarrow>
          (let v = net_loop net_init ls in
           (fixed netReceivedSign (go_sub (rxNow v) (rxOld st)) @ '' '' @
            fixed netTransmittedSign (go_sub (txNow v) (txOld st)),
            \<lparr>rxOld = rxNow v, txOld = txNow v\<rparr>)))"

text \<open>The revision with arrows: \<^verbatim>\<open>"\xe2\x86\x93"\<close> (down) and \<^verbatim>\<open>"\xe2\x86\x91"\<close> (up).\<close>

definition updateNetUse_arrows :: "netscan list option \<Rightarrow> netstate \<Rightarrow> string \<times> netstate" where
  "updateNetUse_arrows file st =
     (case file of
        None \<Rightarrow> (netSign @ '' '' @ errMark, st)
      | Some ls \<Rightarrow>
          (let v = net_loop net_init ls;
               download = (if go_sub (rxNow v) (rxOld st) \<noteq> 0
                           then [CHR 0xE2, CHR 0x86, CHR 0x93] else '' '');
               upload = (if go_sub (txNow v) (txOld st) \<noteq> 0
                         then [CHR 0xE2, CHR 0x86, CHR 0x91] else '' '')
           in (netSign @ '' '' @ download @ upload,
               \<lparr>rxOld = rxNow v, txOld = txNow v\<rparr>)))"

section \<open>Panics\<close>

datatype panic = IndexOutOfRange | IntegerDivideByZero

section \<open>The memory sampler\<close>

definition colored :: "string \<Rightarrow> int \<Rightarrow> string" where
  "colored icon percentage =
     (if percentage \<ge> 100 then [CHR 0x06] @ icon @ [CHR 0x01] @ fmt_wd 3 percentage
      else if percentage \<ge> 70 then [CHR 0x03] @ icon @ [CHR 0x01] @ fmt_wd 3 percentage
      else icon @ fmt_wd 3 percentage)"

text \<open>
  A line of \<^verbatim>\<open>/proc/meminfo\<close> is represented by the result of
  \<^verbatim>\<open>fmt.Sscanf(line, "%s %d", &prop, &val)\<close>: \<open>None\<close> when it reports an error,
  the two stored operands otherwise. \<open>done'\<close> (the variable \<^verbatim>\<open>done\<close>) collects the flags 1, 2, 4, 8.
\<close>

record memvars =
  total :: int
  used :: int
  done' :: nat

definition mem_step :: "memvars \<Rightarrow> string \<Rightarrow> int \<Rightarrow> memvars" where
  "mem_step v prop val =
     (if prop = ''MemTotal:''
      then v\<lparr>total := val, used := go_add (used v) val, done' := or (done' v) 1\<rparr>
      else if prop = ''MemFree:''
      then v\<lparr>used := go_sub (used v) val, done' := or (done' v) 2\<rparr>
      else if prop = ''Buffers:''
      then v\<lparr>used := go_sub (used v) val, done' := or (done' v) 4\<rparr>
      else if prop = ''Cached:''
      then v\<lparr>used := go_sub (used v) val, done' := or (done' v) 8\<rparr>
      else v)"

text \<open>The scanning loop; \<open>None\<close> is the early return on a scan error.\<close>

fun mem_loop :: "memvars \<Rightarrow> (string \<times> int) option list \<Rightarrow> memvars option" where
  "mem_loop v [] = Some v"
| "mem_loop v (l # ls) =
     (if done' v = 15 then Some v
      else (case l of
              None \<Rightarrow> None
            | Some (prop, val) \<Rightarrow> mem_loop (mem_step v prop val) ls))"

definition updateMemUse :: "(string \<times> int) option list option \<Rightarrow> panic + string" where
  "updateMemUse file =
     (case file of
        None \<Rightarrow> Inr (memSign @ errMark)
      | Some ls \<Rightarrow>
          (case mem_loop \<lparr>total = 0, used = 0, done' = 0\<rparr> ls of
             None \<Rightarrow> Inr (memSign @ errMark)
           | Some v \<Rightarrow>
               if total v = 0 then Inl IntegerDivideByZero
               else Inr (colored memSign (go_quo (go_mul (used v) 100) (total v)))))"

section \<open>The power sampler\<close>

text \<open>
  The part of the file system the sampler looks at: \<^verbatim>\<open>ioutil.ReadFile\<close> (the whole
  content, \<open>None\<close> on an error), \<^verbatim>\<open>ioutil.ReadDir\<close> (the names of the entries) and the
  lines a scanner delivers from an opened file.
\<close>

record sysfs =
  ReadFile :: "string \<Rightarrow> string option"
  ReadDir :: "string \<Rightarrow> string list option"
  OpenLines :: "string \<Rightarrow> string list option"

record battery_totals =
  enFull :: int
  enNow :: int
  curNow :: int

definition no_totals :: battery_totals where
  "no_totals = \<lparr>enFull = 0, enNow = 0, curNow = 0\<rparr>"

text \<open>The literal \<^verbatim>\<open>"\xc3\x8f\x03ERR\x01"\<close> returned when there is nothing to show.\<close>

definition powerErr :: string where
  "powerErr = [CHR 0xC3, CHR 0x8F] @ errMark"

text \<open>The estimate \<^verbatim>\<open>" [%d:%02d]"\<close> computed when running on battery.\<close>

definition time_remaining :: "(float32 \<Rightarrow> int) \<Rightarrow> int \<Rightarrow> int \<Rightarrow> string" where
  "time_remaining ovf en cur =
     (let remaining = f32_quo (f32_of_int en) (f32_of_int cur);
          time_in_min = int_of_f32 ovf (f32_mul remaining (F32 60 1));
          hours = go_quo time_in_min 60;
          time_in_min' = go_sub time_in_min (go_mul hours 60)
      in '' ['' @ fmt_d hours @ '':'' @ fmt_0wd 2 time_in_min' @ '']'')"

text \<open>The three final \<^verbatim>\<open>Sprintf\<close> calls, chosen by the percentage.\<close>

definition power_line :: "string \<Rightarrow> int \<Rightarrow> string \<Rightarrow> string" where
  "power_line icon enPerc timeRemaining =
     (if enPerc \<le> 5
      then [CHR 0x06] @ icon @ '' '' @ [CHR 0x01] @ fmt_wd 3 enPerc @ timeRemaining
      else if enPerc \<le> 10
      then [CHR 0x03] @ icon @ '' '' @ [CHR 0x01] @ fmt_wd 3 enPerc @ timeRemaining
      else icon @ '' '' @ fmt_wd 3 enPerc @ timeRemaining)"

subsection \<open>The revision that parses the uevent file\<close>

definition powerSupply_uevent :: string where
  "powerSupply_uevent = ''/sys/class/power_supply''"

definition battery_uevent :: "sysfs \<Rightarrow> battery_totals \<Rightarrow> string \<Rightarrow> battery_totals" where
  "battery_uevent fs t name =
     (if \<not> HasPrefix name ''BAT'' then t
      else
        (let batteryValues =
               parseFile (OpenLines fs) (powerSupply_uevent @ ''/'' @ name @ ''/uevent'')
         in \<lparr>enFull = go_add (enFull t)
                 (SearchForInt batteryValues
                    [''POWER_SUPPLY_ENERGY_FULL'', ''POWER_SUPPLY_CHARGE_FULL'']),
             enNow = go_add (enNow t)
                 (SearchForInt batteryValues
                    [''POWER_SUPPLY_ENERGY_NOW'', ''POWR_SUPPLY_CHARGE_NOW'']),
             curNow = go_add (curNow t)
                 (SearchForInt batteryValues
                    [''POWER_SUPPLY_CURRENT_NOW'', ''POWER_SUPPLY_POWER_NOW''])\<rparr>))"

fun batteries_uevent :: "sysfs \<Rightarrow> battery_totals \<Rightarrow> string list \<Rightarrow> battery_totals" where
  "batteries_uevent fs t [] = t"
| "batteries_uevent fs t (name # batts) = batteries_uevent fs (battery_uevent fs t name) batts"

definition updatePower_uevent :: "(float32 \<Rightarrow> int) \<Rightarrow> sysfs \<Rightarrow> panic + string" where
  "updatePower_uevent ovf fs =
     (case ReadFile fs (powerSupply_uevent @ ''/AC/online'') of
        None \<Rightarrow> Inr powerErr
      | Some plugged \<Rightarrow>
          (case ReadDir fs powerSupply_uevent of
             None \<Rightarrow> Inr powerErr
           | Some batts \<Rightarrow>
               (let t = batteries_uevent fs no_totals batts in
                if enFull t = 0 then Inr powerErr
                else
                  (let enPerc = go_quo (go_mul (enNow t) 100) (enFull t) in
                   case plugged of
                     [] \<Rightarrow> Inl IndexOutOfRange
                   | c # _ \<Rightarrow>
                       if c = CHR ''1'' then Inr (power_line pluggedSign enPerc [])
                       else if curNow t \<noteq> 0
                       then Inr (power_line unpluggedSign enPerc
                                   (time_remaining ovf (enNow t) (curNow t)))
                       else Inr (power_line unpluggedSign enPerc [])))))"

subsection \<open>The revision that reads one file per field\<close>

definition powerSupply :: string where
  "powerSupply = ''/sys/class/power_supply/''"

text \<open>The loop of \<^verbatim>\<open>readval\<close>: the first readable file, the byte \<^verbatim>\<open>'0'\<close> if none is.\<close>

fun readval_file :: "sysfs \<Rightarrow> string \<Rightarrow> string list \<Rightarrow> string" where
  "readval_file fs path [] = ''0''"
| "readval_file fs path (f # rest) =
     (case ReadFile fs (path @ f) of
        Some tmp \<Rightarrow> tmp
      | None \<Rightarrow> readval_file fs path rest)"

definition readval :: "sysfs \<Rightarrow> string \<Rightarrow> string list \<Rightarrow> int" where
  "readval fs name field =
     (let path = powerSupply @ name @ ''/'';
          file = readval_file fs path field
      in case Atoi (TrimSpace file) of Some ret \<Rightarrow> ret | None \<Rightarrow> 0)"

definition battery_files :: "sysfs \<Rightarrow> battery_totals \<Rightarrow> string \<Rightarrow> battery_totals" where
  "battery_files fs t name =
     (if \<not> HasPrefix name ''BAT'' then t
      else \<lparr>enFull = go_add (enFull t) (readval fs name [''energy_full'', ''charge_full'']),
            enNow = go_add (enNow t) (readval fs name [''energy_now'', ''charge_now'']),
            curNow = go_add (curNow t) (readval fs name [''current_now''])\<rparr>)"

fun batteries_files :: "sysfs \<Rightarrow> battery_totals \<Rightarrow> string list \<Rightarrow> battery_totals" where
  "batteries_files fs t [] = t"
| "batteries_files fs t (name # batts) = batteries_files fs (battery_files fs t name) batts"

definition updatePower :: "(float32 \<Rightarrow> int) \<Rightarrow> sysfs \<Rightarrow> string" where
  "updatePower ovf fs =
     (case ReadFile fs (powerSupply @ ''AC/online'') of
        None \<Rightarrow> powerErr
      | Some plugged \<Rightarrow>
          (case ReadDir fs powerSupply of
             None \<Rightarrow> powerErr
           | Some batts \<Rightarrow>
               (let t = batteries_files fs no_totals batts in
                if enFull t = 0 then powerErr
                else
                  (let enPerc = go_quo (go_mul (enNow t) 100) (enFull t) in
                   if plugged = [CHR ''1'', CHR 0x0A] then power_line pluggedSign enPerc []
                   else if curNow t \<noteq> 0
                   then power_line unpluggedSign enPerc
                          (time_remaining ovf (enNow t) (curNow t))
                   else power_line unpluggedSign enPerc []))))"

section \<open>Reference formulations and sample inputs\<close>

text \<open>
  The store as the specification words it: a line is cut at its first \<^verbatim>\<open>=\<close> only, and
  gives an entry when that leaves exactly two parts.
\<close>

definition spec_split_first :: "string \<Rightarrow> char \<Rightarrow> string list" where
  "spec_split_first line sep =
     (if sep \<in> set line
      then [takeWhile (\<lambda>c. c \<noteq> sep) line, tl (dropWhile (\<lambda>c. c \<noteq> sep) line)]
      else [line])"

definition spec_parseLine :: "Hash \<Rightarrow> string \<Rightarrow> Hash" where
  "spec_parseLine hash line =
     (let buffer = spec_split_first line (CHR ''='') in
      if length buffer = 2
      then hash\<lparr>hvalues := (hvalues hash)(buffer ! 0 \<mapsto> buffer ! 1)\<rparr>
      else hash)"

text \<open>The key and the value of a line that holds exactly one \<^verbatim>\<open>=\<close>.\<close>

definition key_of :: "string \<Rightarrow> string" where
  "key_of line = takeWhile (\<lambda>c. c \<noteq> CHR ''='') line"

definition value_of :: "string \<Rightarrow> string" where
  "value_of line = tl (dropWhile (\<lambda>c. c \<noteq> CHR ''='') line)"

definition well_formed :: "string \<Rightarrow> bool" where
  "well_formed line = (count_list line (CHR ''='') = 1)"

text \<open>
  One battery \<^verbatim>\<open>BAT0\<close> with \<^verbatim>\<open>energy_full\<close> 2000 and \<^verbatim>\<open>energy_now\<close> 1000, seen
  through one file per field. The content of \<^verbatim>\<open>AC/online\<close> and the number in
  \<^verbatim>\<open>current_now\<close> (written with a final newline; \<open>None\<close>: the file is unreadable) are
  parameters.
\<close>

definition files_sysfs :: "string \<Rightarrow> string option \<Rightarrow> sysfs" where
  "files_sysfs ac cur =
     \<lparr>ReadFile =
        (map_of
           [(''/sys/class/power_supply/AC/online'', ac),
            (''/sys/class/power_supply/BAT0/energy_full'', ''2000'' @ [CHR 0x0A]),
            (''/sys/class/power_supply/BAT0/energy_now'', ''1000'' @ [CHR 0x0A])])
        (''/sys/class/power_supply/BAT0/current_now'' :=
           map_option (\<lambda>s. s @ [CHR 0x0A]) cur),
      ReadDir = map_of [(''/sys/class/power_supply/'', [''AC'', ''BAT0''])],
      OpenLines = Map.empty\<rparr>"

text \<open>One battery \<^verbatim>\<open>BAT0\<close> seen through its uevent file, given by its lines.\<close>

definition uevent_sysfs :: "string \<Rightarrow> string list \<Rightarrow> sysfs" where
  "uevent_sysfs ac ls =
     \<lparr>ReadFile = map_of [(''/sys/class/power_supply/AC/online'', ac)],
      ReadDir = map_of [(''/sys/class/power_supply'', [''AC'', ''BAT0''])],
      OpenLines = map_of [(''/sys/class/power_supply/BAT0/uevent'', ls)]\<rparr>"

text \<open>
  One battery \<^verbatim>\<open>BAT0\<close> whose \<^verbatim>\<open>energy_full\<close> and \<^verbatim>\<open>energy_now\<close> both hold
  \<open>10^17\<close>, with \<^verbatim>\<open>AC/online\<close> holding \<^verbatim>\<open>"0\n"\<close> and no readable \<^verbatim>\<open>current_now\<close>.
\<close>

definition large_sysfs :: sysfs where
  "large_sysfs =
     \<lparr>ReadFile =
        map_of
          [(''/sys/class/power_supply/AC/online'', [CHR ''0'', CHR 0x0A]),
           (''/sys/class/power_supply/BAT0/energy_full'', ''100000000000000000'' @ [CHR 0x0A]),
           (''/sys/class/power_supply/BAT0/energy_now'', ''100000000000000000'' @ [CHR 0x0A])],
      ReadDir = map_of [(''/sys/class/power_supply/'', [''AC'', ''BAT0''])],
      OpenLines = Map.empty\<rparr>"

text \<open>The conversion of an out-of-range float on amd64: the smallest 64-bit integer.\<close>

definition ovf_amd64 :: "float32 \<Rightarrow> int" where
  "ovf_amd64 x = - (2 ^ 63)"

section \<open>Properties of the key=value store\<close>

lemma find_append_case:
  "find P (xs @ ys) = (case find P xs of None \<Rightarrow> find P ys | Some x \<Rightarrow> Some x)"
  by (induction xs) auto

lemma length_Split: "length (Split s c) = Suc (count_list s c)"
  by (induction s) (auto split: list.splits)

lemma Split_no_sep: "count_list s c = 0 \<Longrightarrow> Split s c = [s]"
  by (induction s) (auto split: list.splits if_splits)

lemma Split_one_sep:
  "count_list s c = 1 \<Longrightarrow>
   Split s c = [takeWhile (\<lambda>x. x \<noteq> c) s, tl (dropWhile (\<lambda>x. x \<noteq> c) s)]"
  by (induction s) (auto simp: Split_no_sep split: list.splits if_splits)

lemma parseLine_cases:
  "parseLine h line =
     (if well_formed line then h\<lparr>hvalues := (hvalues h)(key_of line \<mapsto> value_of line)\<rparr>
      else h)"
  by (simp add: parseLine_def well_formed_def key_of_def value_of_def Let_def
      length_Split Split_one_sep)

lemma parseLines_last:
  "hvalues (parseLines h ls) k =
     (case find (\<lambda>l. well_formed l \<and> key_of l = k) (rev ls) of
        None \<Rightarrow> hvalues h k
      | Some l \<Rightarrow> Some (value_of l))"
proof (induction ls arbitrary: h)
  case Nil
  then show ?case by simp
next
  case (Cons l ls)
  show ?case
    by (simp add: Cons.IH find_append_case parseLine_cases split: option.splits)
qed

lemma SearchForInt_find:
  "SearchForInt h keys =
     (case find (\<lambda>k. k \<in> dom (hvalues h)) keys of
        None \<Rightarrow> 0
      | Some k \<Rightarrow> (case Atoi (the (hvalues h k)) of Some n \<Rightarrow> n | None \<Rightarrow> 0))"
  by (induction keys) (auto simp: GetInt_def dom_def split: option.splits)

text \<open>
  Claim C5. For the store parsed from any file and any list of candidate keys,
  \<open>SearchForInt\<close> looks at the first candidate that is a key of the store: the result is
  the integer its value parses to, and 0 when that value does not parse or when no
  candidate is a key of the store.
\<close>

theorem SearchForInt_first_present:
  "SearchForInt (parseFile open_lines path) keys =
     (case find (\<lambda>k. k \<in> dom (hvalues (parseFile open_lines path))) keys of
        None \<Rightarrow> 0
      | Some k \<Rightarrow>
          (case Atoi (the (hvalues (parseFile open_lines path) k)) of
             Some n \<Rightarrow> n
           | None \<Rightarrow> 0))"
  by (rule SearchForInt_find)

text \<open>
  Claim C6, as stated, fails: cutting the line \<^verbatim>\<open>a=b=c\<close> at its first \<^verbatim>\<open>=\<close> leaves the
  two parts \<^verbatim>\<open>a\<close> and \<^verbatim>\<open>b=c\<close>, hence an entry, whereas \<open>parseLine\<close> cuts at every
  \<^verbatim>\<open>=\<close>, gets three parts and stores nothing.
\<close>

theorem parseLine_split_first_counterexample:
  "hvalues (parseLine empty_hash ''a=b=c'') ''a'' = None
   \<and> hvalues (spec_parseLine empty_hash ''a=b=c'') ''a'' = Some ''b=c''"
  by (simp add: parseLine_def spec_parseLine_def spec_split_first_def empty_hash_def)

text \<open>
  Claim C6, amended. \<open>parseLine\<close> cuts a line at every \<^verbatim>\<open>=\<close>. A line gives an entry
  exactly when it holds exactly one \<^verbatim>\<open>=\<close>: the key is the text before it, the value
  the text after it; a line with no \<^verbatim>\<open>=\<close> or with several leaves the store as it
  is. After the whole file, a key is bound to the value of the last such line that
  carries it, so later duplicates overwrite earlier ones.
\<close>

theorem parseFile_entries:
  "parseLine h line =
     (if well_formed line then h\<lparr>hvalues := (hvalues h)(key_of line \<mapsto> value_of line)\<rparr>
      else h)
   \<and> hvalues (parseLines h ls) k =
     (case find (\<lambda>l. well_formed l \<and> key_of l = k) (rev ls) of
        None \<Rightarrow> hvalues h k
      | Some l \<Rightarrow> Some (value_of l))
   \<and> (open_lines path = Some ls \<longrightarrow>
        parseFile open_lines path = parseLines empty_hash ls)"
  by (simp add: parseLine_cases parseLines_last parseFile_def)

theorem parseFile_entries_witness:
  "(map_of [(''uevent'', [''a=1'', ''junk'', ''a=b=c'', ''a=2'', ''b=3''])]) ''uevent''
     = Some [''a=1'', ''junk'', ''a=b=c'', ''a=2'', ''b=3'']
   \<and> hvalues (parseFile (map_of [(''uevent'', [''a=1'', ''junk'', ''a=b=c'', ''a=2'', ''b=3''])])
        ''uevent'') ''a'' = Some ''2''"
proof -
  let ?ls = "[''a=1'', ''junk'', ''a=b=c'', ''a=2'', ''b=3'']"
  let ?m = "map_of [(''uevent'', ?ls)]"
  note e = parseFile_entries [of empty_hash "''a=1''" ?ls "''a''" ?m "''uevent''"]
  have opened: "?m ''uevent'' = Some ?ls"
    by simp
  have "hvalues (parseLines empty_hash ?ls) ''a'' = Some ''2''"
    by (simp only: conjunct1 [OF conjunct2 [OF e]])
       (simp add: well_formed_def key_of_def value_of_def)
  moreover have "parseFile ?m ''uevent'' = parseLines empty_hash ?ls"
    using conjunct2 [OF conjunct2 [OF e]] opened by (rule mp)
  ultimately show ?thesis
    using opened by (simp only: simp_thms)
qed

section \<open>Evaluation on concrete inputs\<close>

lemma replicate_numeral: "replicate (numeral k) x = x # replicate (pred_numeral k) x"
  by (simp add: numeral_eq_Suc)

lemmas go_arith = go_add_def go_sub_def go_mul_def go_quo_def wrap64_def trunc_quo_def
lemmas fmt_int = fmt_d_def fmt_wd_def fmt_0wd_def pad_left_def digits10.simps digit_char_def
  replicate_numeral
lemmas f32_eval = f32_of_int_def f32_round_def flog2_def rhe_div_def f32_quo_def f32_mul_def
  f32_ge_def int_of_f32_def bit_len.simps
lemmas fmt_float = formated_def fmt_f_def pad_left_def digits10.simps digit_char_def
  replicate_numeral floatSeparator_def

section \<open>Properties of the network sampler\<close>

lemma fixed_negative: "rate < 0 \<Longrightarrow> fixed pre rate = pre @ '' '' @ errMark"
  by (simp add: fixed_def)

lemma fixed_0: "fixed pre 0 = pre @ '' 0.0B/s''"
  by (simp add: fixed_def f32_eval fmt_float bpsSign_def)

lemma fixed_100: "fixed netTransmittedSign 100 = ''TX100B/s''"
  by (simp add: fixed_def netTransmittedSign_def f32_eval fmt_float bpsSign_def)

lemma go_sub_negative: "0 \<le> a \<Longrightarrow> a < b \<Longrightarrow> b < 2 ^ 63 \<Longrightarrow> go_sub a b < 0"
proof -
  assume a: "0 \<le> a" "a < b" "b < 2 ^ 63"
  then have "0 \<le> a - b + 2 ^ 63" "a - b + 2 ^ 63 < 2 ^ 64"
    by simp_all
  then have "(a - b + 2 ^ 63) mod 2 ^ 64 = a - b + 2 ^ 63"
    by simp
  then show ?thesis
    using a by (simp add: go_sub_def wrap64_def)
qed

lemma net_loop_wlp:
  "net_loop net_init [ScanDev ''Inter-|'', ScanAll ''wlp4s0:'' 500 600]
     = \<lparr>dev = ''wlp4s0:'', rx = 500, tx = 600, rxNow = 500, txNow = 600\<rparr>"
  by (simp add: net_init_def net_step_def netDevs_def go_arith)

lemma net_loop_enp:
  "net_loop net_init [ScanAll ''enp0s25:'' 1000 400]
     = \<lparr>dev = ''enp0s25:'', rx = 1000, tx = 400, rxNow = 1000, txNow = 400\<rparr>"
  by (simp add: net_init_def net_step_def netDevs_def go_arith)


lemma net_loop_wlp_drop:
  "net_loop net_init [ScanAll ''wlp4s0:'' 500 500]
     = \<lparr>dev = ''wlp4s0:'', rx = 500, tx = 500, rxNow = 500, txNow = 500\<rparr>"
  by (simp add: net_init_def net_step_def netDevs_def go_arith)

text \<open>
  Claim C3, as stated, fails: with a receive total of 500 after a previous total of 1000
  the receive half of the field is the error marker, while no traffic at all is shown as
  \<^verbatim>\<open>RX 0.0B/s\<close>.
\<close>

theorem updateNetUse_zero_traffic_counterexample:
  "fst (updateNetUse (Some [ScanAll ''wlp4s0:'' 500 500]) \<lparr>rxOld = 1000, txOld = 500\<rparr>)
     = ''RX '' @ [CHR 0x03] @ ''ERR'' @ [CHR 0x01] @ '' TX 0.0B/s''
   \<and> fixed netReceivedSign 0 = ''RX 0.0B/s''"
proof -
  have "go_sub 500 1000 < 0" "go_sub 500 500 = 0"
    by (simp_all add: go_arith)
  then show ?thesis
    by (simp add: updateNetUse_def net_loop_wlp_drop fixed_negative fixed_0 errMark_def
        netReceivedSign_def netTransmittedSign_def del: net_loop.simps)
qed

text \<open>
  Claim C3, amended. When a cumulative byte counter (a non-negative total) is smaller
  than the total of the previous sample, the difference handed to \<open>fixed\<close> is negative
  and that direction of the published field is the error marker: \<^verbatim>\<open>RX\<close> or \<^verbatim>\<open>TX\<close>,
  a space, and \<^verbatim>\<open>ERR\<close> between the colour escapes 0x03 and 0x01. A decrease is not
  shown as zero traffic.
\<close>

theorem updateNetUse_decrease_is_error:
  "(0 \<le> rxNow (net_loop net_init ls) \<and> rxNow (net_loop net_init ls) < rxOld st
      \<and> rxOld st < 2 ^ 63 \<longrightarrow>
    fst (updateNetUse (Some ls) st) =
      netReceivedSign @ '' '' @ errMark @ '' '' @
      fixed netTransmittedSign (go_sub (txNow (net_loop net_init ls)) (txOld st)))
   \<and> (0 \<le> txNow (net_loop net_init ls) \<and> txNow (net_loop net_init ls) < txOld st
      \<and> txOld st < 2 ^ 63 \<longrightarrow>
    fst (updateNetUse (Some ls) st) =
      fixed netReceivedSign (go_sub (rxNow (net_loop net_init ls)) (rxOld st)) @ '' '' @
      netTransmittedSign @ '' '' @ errMark)"
  by (simp add: updateNetUse_def Let_def fixed_negative go_sub_negative)

theorem updateNetUse_decrease_is_error_witness:
  "fst (updateNetUse (Some [ScanDev ''Inter-|'', ScanAll ''wlp4s0:'' 500 600])
          \<lparr>rxOld = 1000, txOld = 500\<rparr>) = ''RX '' @ errMark @ '' TX100B/s''
   \<and> fst (updateNetUse (Some [ScanAll ''enp0s25:'' 1000 400])
          \<lparr>rxOld = 1000, txOld = 500\<rparr>) = ''RX 0.0B/s TX '' @ errMark"
proof -
  have a: "go_sub 600 500 = 100" "go_sub 1000 1000 = 0"
    by (simp_all add: go_arith)
  note w1 = updateNetUse_decrease_is_error
    [of "[ScanDev ''Inter-|'', ScanAll ''wlp4s0:'' 500 600]" "\<lparr>rxOld = 1000, txOld = 500\<rparr>"]
  note w2 = updateNetUse_decrease_is_error
    [of "[ScanAll ''enp0s25:'' 1000 400]" "\<lparr>rxOld = 1000, txOld = 500\<rparr>"]
  have "fst (updateNetUse (Some [ScanDev ''Inter-|'', ScanAll ''wlp4s0:'' 500 600])
          \<lparr>rxOld = 1000, txOld = 500\<rparr>) = ''RX '' @ errMark @ '' TX100B/s''"
    using conjunct1 [OF w1]
    by (simp add: net_loop_wlp a fixed_100 netReceivedSign_def del: net_loop.simps)
  moreover have "fst (updateNetUse (Some [ScanAll ''enp0s25:'' 1000 400])
          \<lparr>rxOld = 1000, txOld = 500\<rparr>) = ''RX 0.0B/s TX '' @ errMark"
    using conjunct2 [OF w2]
    by (simp add: net_loop_enp a fixed_0 netReceivedSign_def netTransmittedSign_def
        del: net_loop.simps)
  ultimately show ?thesis
    by simp
qed

text \<open>
  Claim C4. When \<^verbatim>\<open>/proc/net/dev\<close> cannot be opened the sampler returns one fixed
  string, the error marker for the receive and for the transmit direction, and the
  previous totals stay as they are; after a successful read the previous totals are the
  totals of this read. The older revision with arrows behaves the same way, with the one
  marker \<^verbatim>\<open>NET ERR\<close> for the field.
\<close>

theorem updateNetUse_state:
  "updateNetUse None st =
     (netReceivedSign @ '' '' @ errMark @ '' '' @ netTransmittedSign @ '' '' @ errMark, st)
   \<and> snd (updateNetUse (Some ls) st) =
       \<lparr>rxOld = rxNow (net_loop net_init ls), txOld = txNow (net_loop net_init ls)\<rparr>
   \<and> updateNetUse_arrows None st = (netSign @ '' '' @ errMark, st)
   \<and> snd (updateNetUse_arrows (Some ls) st) =
       \<lparr>rxOld = rxNow (net_loop net_init ls), txOld = txNow (net_loop net_init ls)\<rparr>"
  by (simp add: updateNetUse_def updateNetUse_arrows_def Let_def)

section \<open>Properties of the samplers on degenerate inputs\<close>

lemma batteries_uevent_charge_only:
  "batteries_uevent
     (uevent_sysfs ac [''POWER_SUPPLY_CHARGE_FULL=2000'', ''POWER_SUPPLY_CHARGE_NOW=1000''])
     no_totals [''AC'', ''BAT0'']
   = \<lparr>enFull = 2000, enNow = 0, curNow = 0\<rparr>"
  by (simp add: battery_uevent_def uevent_sysfs_def powerSupply_uevent_def HasPrefix_def
      parseFile_def parseLine_def empty_hash_def GetInt_def Atoi_def digit_of_def
      no_totals_def go_arith)

lemma batteries_uevent_energy:
  "batteries_uevent
     (uevent_sysfs ac [''POWER_SUPPLY_ENERGY_FULL=2000'', ''POWER_SUPPLY_ENERGY_NOW=1000''])
     no_totals [''AC'', ''BAT0'']
   = \<lparr>enFull = 2000, enNow = 1000, curNow = 0\<rparr>"
  by (simp add: battery_uevent_def uevent_sysfs_def powerSupply_uevent_def HasPrefix_def
      parseFile_def parseLine_def empty_hash_def GetInt_def Atoi_def digit_of_def
      no_totals_def go_arith)

lemma uevent_sysfs_reads:
  "ReadFile (uevent_sysfs ac ls) (powerSupply_uevent @ ''/AC/online'') = Some ac"
  "ReadDir (uevent_sysfs ac ls) powerSupply_uevent = Some [''AC'', ''BAT0'']"
  by (simp_all add: uevent_sysfs_def powerSupply_uevent_def)

text \<open>
  Claim C9 is not met by the code. The uevent revision looks up
  \<^verbatim>\<open>POWR_SUPPLY_CHARGE_NOW\<close>, a misspelling of \<^verbatim>\<open>POWER_SUPPLY_CHARGE_NOW\<close>. For a
  battery whose uevent file defines \<^verbatim>\<open>POWER_SUPPLY_CHARGE_FULL=2000\<close> and
  \<^verbatim>\<open>POWER_SUPPLY_CHARGE_NOW=1000\<close> the now-energy total stays 0 and the sampler shows
  0 percent where the claim expects 1000 and 50 percent.
\<close>

theorem updatePower_uevent_charge_now_ignored:
  "enNow (batteries_uevent
     (uevent_sysfs (''0'' @ [CHR 0x0A])
        [''POWER_SUPPLY_CHARGE_FULL=2000'', ''POWER_SUPPLY_CHARGE_NOW=1000''])
     no_totals [''AC'', ''BAT0'']) = 0
   \<and> updatePower_uevent ovf_amd64
     (uevent_sysfs (''0'' @ [CHR 0x0A])
        [''POWER_SUPPLY_CHARGE_FULL=2000'', ''POWER_SUPPLY_CHARGE_NOW=1000''])
     = Inr ([CHR 0x06] @ ''BAT '' @ [CHR 0x01] @ ''  0'')"
  by (simp add: updatePower_uevent_def uevent_sysfs_reads batteries_uevent_charge_only
      go_arith power_line_def unpluggedSign_def fmt_int
      del: batteries_uevent.simps)

text \<open>
  Claim C7 is not met by the code. In the uevent revision a readable but empty
  \<^verbatim>\<open>AC/online\<close> file together with a battery of non-zero capacity reaches
  \<^verbatim>\<open>plugged[0]\<close> on an empty slice; a \<^verbatim>\<open>/proc/meminfo\<close> that opens and has no
  \<^verbatim>\<open>MemTotal:\<close> line reaches \<^verbatim>\<open>used*100/total\<close> with \<open>total = 0\<close>. Both are
  run-time panics, not strings.
\<close>

theorem samplers_panic:
  "updatePower_uevent ovf_amd64
     (uevent_sysfs [] [''POWER_SUPPLY_ENERGY_FULL=2000'', ''POWER_SUPPLY_ENERGY_NOW=1000''])
     = Inl IndexOutOfRange
   \<and> updateMemUse (Some []) = Inl IntegerDivideByZero"
  by (simp add: updatePower_uevent_def uevent_sysfs_reads batteries_uevent_energy
      updateMemUse_def del: batteries_uevent.simps)

section \<open>Properties of the power sampler\<close>

lemma power_line_icon: "power_line pluggedSign p r \<noteq> power_line unpluggedSign p' r'"
  by (simp add: power_line_def pluggedSign_def unpluggedSign_def)

lemma updatePower_cases:
  assumes "ReadFile fs (powerSupply @ ''AC/online'') = Some plugged"
    and "ReadDir fs powerSupply = Some batts"
    and "t = batteries_files fs no_totals batts"
  shows "updatePower ovf fs =
     (if enFull t = 0 then powerErr
      else power_line (if plugged = [CHR ''1'', CHR 0x0A] then pluggedSign else unpluggedSign)
             (go_quo (go_mul (enNow t) 100) (enFull t))
             (if plugged \<noteq> [CHR ''1'', CHR 0x0A] \<and> curNow t \<noteq> 0
              then time_remaining ovf (enNow t) (curNow t) else []))"
  using assms by (simp add: updatePower_def Let_def)

lemma updatePower_uevent_cases:
  assumes "ReadFile fs (powerSupply_uevent @ ''/AC/online'') = Some plugged"
    and "ReadDir fs powerSupply_uevent = Some batts"
    and "t = batteries_uevent fs no_totals batts"
  shows "updatePower_uevent ovf fs =
     (if enFull t = 0 then Inr powerErr
      else if plugged = [] then Inl IndexOutOfRange
      else Inr (power_line (if hd plugged = CHR ''1'' then pluggedSign else unpluggedSign)
             (go_quo (go_mul (enNow t) 100) (enFull t))
             (if hd plugged \<noteq> CHR ''1'' \<and> curNow t \<noteq> 0
              then time_remaining ovf (enNow t) (curNow t) else [])))"
  using assms by (cases plugged) (simp_all add: updatePower_uevent_def Let_def)

lemma files_sysfs_reads:
  "ReadFile (files_sysfs ac cur) (powerSupply @ ''AC/online'') = Some ac"
  "ReadDir (files_sysfs ac cur) powerSupply = Some [''AC'', ''BAT0'']"
  by (simp_all add: files_sysfs_def powerSupply_def)

lemma readval_eq:
  assumes "readval_file fs (powerSupply @ name @ ''/'') field = content"
    and "TrimSpace content = trimmed"
    and "Atoi trimmed = Some n"
  shows "readval fs name field = n"
  using assms by (simp add: readval_def)

lemma TrimSpace_newline:
  "TrimSpace [CHR ''2'', CHR ''0'', CHR ''0'', CHR ''0'', CHR 0x0A] = ''2000''"
  "TrimSpace [CHR ''1'', CHR ''0'', CHR ''0'', CHR ''0'', CHR 0x0A] = ''1000''"
  "TrimSpace [CHR ''5'', CHR ''0'', CHR ''0'', CHR 0x0A] = ''500''"
  "TrimSpace [CHR ''0'', CHR 0x0A] = ''0''"
  "TrimSpace ''0'' = ''0''"
  by (simp_all add: TrimSpace_def unicode_spaces_def)

lemma Atoi_samples:
  "Atoi ''2000'' = Some 2000" "Atoi ''1000'' = Some 1000" "Atoi ''500'' = Some 500"
  "Atoi ''0'' = Some 0"
  by (simp_all add: Atoi_def digit_of_def)

lemma readval_sample_full:
  "readval (files_sysfs ac cur) ''BAT0'' [''energy_full'', ''charge_full''] = 2000"
  by (rule readval_eq [OF _ TrimSpace_newline(1) Atoi_samples(1)])
     (simp add: files_sysfs_def powerSupply_def)

lemma readval_sample_now:
  "readval (files_sysfs ac cur) ''BAT0'' [''energy_now'', ''charge_now''] = 1000"
  by (rule readval_eq [OF _ TrimSpace_newline(2) Atoi_samples(2)])
     (simp add: files_sysfs_def powerSupply_def)

lemma readval_sample_current:
  "readval (files_sysfs ac (Some ''500'')) ''BAT0'' [''current_now''] = 500"
  "readval (files_sysfs ac (Some ''0'')) ''BAT0'' [''current_now''] = 0"
  "readval (files_sysfs ac None) ''BAT0'' [''current_now''] = 0"
  by (rule readval_eq [OF _ TrimSpace_newline(3) Atoi_samples(3)],
      simp add: files_sysfs_def powerSupply_def,
      rule readval_eq [OF _ TrimSpace_newline(4) Atoi_samples(4)],
      simp add: files_sysfs_def powerSupply_def,
      rule readval_eq [OF _ TrimSpace_newline(5) Atoi_samples(4)],
      simp add: files_sysfs_def powerSupply_def)

lemma wrap64_id: "- (2 ^ 63) \<le> x \<Longrightarrow> x < 2 ^ 63 \<Longrightarrow> wrap64 x = x"
proof -
  assume "- (2 ^ 63) \<le> x" "x < 2 ^ 63"
  then have "0 \<le> x + 2 ^ 63" "x + 2 ^ 63 < 2 ^ 64"
    by simp_all
  then have "(x + 2 ^ 63) mod 2 ^ 64 = x + 2 ^ 63"
    by simp
  then show ?thesis
    by (simp add: wrap64_def)
qed

lemma Atoi_range: "Atoi s = Some v \<Longrightarrow> - (2 ^ 63) \<le> v \<and> v < 2 ^ 63"
  unfolding Atoi_def Let_def
  by (cases s) (simp_all split: option.splits if_splits)

lemma readval_in_range:
  "- (2 ^ 63) \<le> readval fs name field" "readval fs name field < 2 ^ 63"
  using Atoi_range [of "TrimSpace (readval_file fs (powerSupply @ name @ ''/'') field)"]
  by (simp_all add: readval_def Let_def split: option.splits)

lemma not_min_int: "now * 100 \<noteq> - (2 ^ 63 :: int)"
proof
  assume "now * 100 = - (2 ^ 63 :: int)"
  then have "100 dvd (- (2 ^ 63) :: int)"
    by (metis dvd_triv_right)
  then show False
    by simp
qed

lemma wrap64_readval: "wrap64 (readval fs name field) = readval fs name field"
  by (rule wrap64_id) (rule readval_in_range)+

lemma batteries_files_sample:
  "batteries_files (files_sysfs ac cur) no_totals [''AC'', ''BAT0''] =
     \<lparr>enFull = 2000, enNow = 1000,
      curNow = readval (files_sysfs ac cur) ''BAT0'' [''current_now'']\<rparr>"
proof -
  have w: "wrap64 2000 = 2000" "wrap64 1000 = 1000"
    by (simp_all add: wrap64_def)
  show ?thesis
    by (simp add: battery_files_def HasPrefix_def readval_sample_full readval_sample_now
        no_totals_def go_add_def wrap64_readval w)
qed

lemma time_remaining_sample: "time_remaining ovf 1000 500 = '' [2:00]''"
proof -
  have m: "int_of_f32 ovf (f32_mul (f32_quo (f32_of_int 1000) (f32_of_int 500)) (F32 60 1)) = 120"
    by (simp add: f32_eval)
  have h: "go_quo 120 60 = 2" "go_sub 120 (go_mul 2 60) = 0"
    by (simp_all add: go_arith)
  have f: "fmt_d 2 = ''2''" "fmt_0wd 2 0 = ''00''"
    by (simp_all add: fmt_int)
  show ?thesis
    by (simp add: time_remaining_def m h f)
qed

lemma percentage_exact:
  assumes "full \<noteq> 0" and "- (2 ^ 63) \<le> now * 100" and "now * 100 < 2 ^ 63"
  shows "go_quo (go_mul now 100) full = trunc_quo (now * 100) full"
proof -
  let ?x = "now * 100"
  have m: "go_mul now 100 = ?x"
    using assms by (simp add: go_mul_def wrap64_id)
  have "?x \<noteq> - (2 ^ 63)"
    by (rule not_min_int)
  then have ax: "\<bar>?x\<bar> < 2 ^ 63"
    using assms by linarith
  have "1 \<le> \<bar>full\<bar>"
    using assms by linarith
  then have "\<bar>?x\<bar> div \<bar>full\<bar> \<le> \<bar>?x\<bar> div 1"
    by (intro zdiv_mono2) simp_all
  then have q: "\<bar>?x\<bar> div \<bar>full\<bar> < 2 ^ 63"
    using ax by simp
  have nn: "0 \<le> \<bar>?x\<bar> div \<bar>full\<bar>"
    by (simp add: pos_imp_zdiv_nonneg_iff assms)
  have "\<bar>trunc_quo ?x full\<bar> = \<bar>sgn ?x\<bar> * \<bar>sgn full\<bar> * \<bar>\<bar>?x\<bar> div \<bar>full\<bar>\<bar>"
    unfolding trunc_quo_def by (simp only: abs_mult)
  also have "\<dots> \<le> \<bar>?x\<bar> div \<bar>full\<bar>"
    using nn by (cases "?x = 0") (simp_all add: abs_sgn_eq)
  finally have "\<bar>trunc_quo ?x full\<bar> \<le> \<bar>?x\<bar> div \<bar>full\<bar>" .
  then have "- (2 ^ 63) \<le> trunc_quo ?x full" "trunc_quo ?x full < 2 ^ 63"
    using q by linarith+
  then show ?thesis
    by (simp add: go_quo_def m wrap64_id)
qed

lemma large_sysfs_reads:
  "ReadFile large_sysfs (powerSupply @ ''AC/online'') = Some [CHR ''0'', CHR 0x0A]"
  "ReadDir large_sysfs powerSupply = Some [''AC'', ''BAT0'']"
  by (simp_all add: large_sysfs_def powerSupply_def)

lemma TrimSpace_large:
  "TrimSpace [CHR ''1'', CHR ''0'', CHR ''0'', CHR ''0'', CHR ''0'', CHR ''0'', CHR ''0'',
     CHR ''0'', CHR ''0'', CHR ''0'', CHR ''0'', CHR ''0'', CHR ''0'', CHR ''0'', CHR ''0'',
     CHR ''0'', CHR ''0'', CHR ''0'', CHR 0x0A] = ''100000000000000000''"
  by (simp add: TrimSpace_def unicode_spaces_def)

lemma Atoi_large: "Atoi ''100000000000000000'' = Some 100000000000000000"
  by (simp add: Atoi_def digit_of_def)

lemma readval_large:
  "readval large_sysfs ''BAT0'' [''energy_full'', ''charge_full''] = 100000000000000000"
  "readval large_sysfs ''BAT0'' [''energy_now'', ''charge_now''] = 100000000000000000"
  "readval large_sysfs ''BAT0'' [''current_now''] = 0"
  by (rule readval_eq [OF _ TrimSpace_large Atoi_large],
      simp add: large_sysfs_def powerSupply_def,
      rule readval_eq [OF _ TrimSpace_large Atoi_large],
      simp add: large_sysfs_def powerSupply_def,
      rule readval_eq [OF _ TrimSpace_newline(5) Atoi_samples(4)],
      simp add: large_sysfs_def powerSupply_def)

lemma batteries_files_large:
  "batteries_files large_sysfs no_totals [''AC'', ''BAT0''] =
     \<lparr>enFull = 100000000000000000, enNow = 100000000000000000, curNow = 0\<rparr>"
  by (simp add: battery_files_def HasPrefix_def readval_large no_totals_def go_add_def
      wrap64_def)

text \<open>
  Claim C2, as stated, fails for large readings. With \<^verbatim>\<open>energy_full\<close> and
  \<^verbatim>\<open>energy_now\<close> both \<open>10^17\<close>, values \<^verbatim>\<open>strconv.Atoi\<close> accepts, the product
  \<^verbatim>\<open>enNow * 100\<close> does not fit 64 bits and wraps around: the sampler shows -84, while
  the truncating quotient of \<open>10^17 * 100\<close> by \<open>10^17\<close> is 100.
\<close>

theorem updatePower_overflow_counterexample:
  "updatePower ovf_amd64 large_sysfs = [CHR 0x06] @ ''BAT '' @ [CHR 0x01] @ ''-84''
   \<and> enNow (batteries_files large_sysfs no_totals [''AC'', ''BAT0'']) = 100000000000000000
   \<and> enFull (batteries_files large_sysfs no_totals [''AC'', ''BAT0'']) = 100000000000000000
   \<and> trunc_quo (100000000000000000 * 100) 100000000000000000 = 100"
proof -
  have p: "go_quo (go_mul 100000000000000000 100) 100000000000000000 = - 84"
    by (simp add: go_arith)
  have l: "fmt_wd 3 (- 84) = ''-84''"
    by (simp add: fmt_int)
  have t: "trunc_quo (100000000000000000 * 100) 100000000000000000 = 100"
    by (simp add: trunc_quo_def)
  have "updatePower ovf_amd64 large_sysfs = [CHR 0x06] @ ''BAT '' @ [CHR 0x01] @ ''-84''"
    using updatePower_cases [OF large_sysfs_reads refl, of ovf_amd64]
    by (simp add: batteries_files_large p l power_line_def unpluggedSign_def
        del: batteries_files.simps)
  then show ?thesis
    using t by (simp add: batteries_files_large del: batteries_files.simps)
qed
text \<open>
  Claim C2, amended. With a readable \<^verbatim>\<open>AC/online\<close> and a readable directory, and \<open>t\<close>
  the totals summed over the batteries: a zero full-energy total gives the error marker;
  otherwise the line shows the percentage \<^verbatim>\<open>enNow * 100 / enFull\<close> computed in Go's
  64-bit integer arithmetic, where the product wraps around, and this is the truncating
  quotient whenever the product fits 64 bits; and exactly when AC is not reported as
  plugged and the current total is not zero, the estimate \<^verbatim>\<open> [h:mm]\<close> computed by
  \<open>time_remaining\<close> from \<^verbatim>\<open>enNow / curNow\<close> hours follows the percentage.
\<close>

theorem updatePower_percentage:
  assumes "ReadFile fs (powerSupply @ ''AC/online'') = Some plugged"
    and "ReadDir fs powerSupply = Some batts"
    and "t = batteries_files fs no_totals batts"
  shows "(enFull t = 0 \<longrightarrow> updatePower ovf fs = powerErr)
    \<and> (enFull t \<noteq> 0 \<longrightarrow>
        updatePower ovf fs =
          power_line (if plugged = [CHR ''1'', CHR 0x0A] then pluggedSign else unpluggedSign)
            (go_quo (go_mul (enNow t) 100) (enFull t))
            (if plugged \<noteq> [CHR ''1'', CHR 0x0A] \<and> curNow t \<noteq> 0
             then time_remaining ovf (enNow t) (curNow t) else []))
    \<and> (enFull t \<noteq> 0 \<and> - (2 ^ 63) \<le> enNow t * 100 \<and> enNow t * 100 < 2 ^ 63 \<longrightarrow>
        go_quo (go_mul (enNow t) 100) (enFull t) = trunc_quo (enNow t * 100) (enFull t))"
proof -
  note c = updatePower_cases [OF assms, of ovf]
  have zero: "enFull t = 0 \<longrightarrow> updatePower ovf fs = powerErr"
    using c by simp
  have line: "enFull t \<noteq> 0 \<longrightarrow>
        updatePower ovf fs =
          power_line (if plugged = [CHR ''1'', CHR 0x0A] then pluggedSign else unpluggedSign)
            (go_quo (go_mul (enNow t) 100) (enFull t))
            (if plugged \<noteq> [CHR ''1'', CHR 0x0A] \<and> curNow t \<noteq> 0
             then time_remaining ovf (enNow t) (curNow t) else [])"
    using c by simp
  have exact: "enFull t \<noteq> 0 \<and> - (2 ^ 63) \<le> enNow t * 100 \<and> enNow t * 100 < 2 ^ 63 \<longrightarrow>
        go_quo (go_mul (enNow t) 100) (enFull t) = trunc_quo (enNow t * 100) (enFull t)"
    using percentage_exact [of "enFull t" "enNow t"] by blast
  show ?thesis
    using zero line exact by blast
qed

theorem updatePower_percentage_witness:
  "updatePower ovf_amd64 (files_sysfs [CHR ''0'', CHR 0x0A] (Some ''0''))
     = ''BAT  50''
   \<and> updatePower ovf_amd64 (files_sysfs [CHR ''0'', CHR 0x0A] (Some ''500''))
     = ''BAT  50 [2:00]''
   \<and> trunc_quo (1000 * 100) 2000 = 50"
proof -
  let ?ac = "[CHR ''0'', CHR 0x0A]"
  let ?fs0 = "files_sysfs ?ac (Some ''0'')"
  let ?fs5 = "files_sysfs ?ac (Some ''500'')"
  have p: "go_quo (go_mul 1000 100) 2000 = 50" "trunc_quo (1000 * 100) 2000 = 50"
    by (simp_all add: go_arith)
  have l: "fmt_wd 3 50 = '' 50''"
    by (simp add: fmt_int)
  have "updatePower ovf_amd64 ?fs0 = ''BAT  50''"
    using updatePower_percentage [OF files_sysfs_reads [of ?ac "Some ''0''"] refl,
        of ovf_amd64]
    by (simp add: batteries_files_sample readval_sample_current p l power_line_def
        unpluggedSign_def del: batteries_files.simps)
  moreover have "updatePower ovf_amd64 ?fs5 = ''BAT  50 [2:00]''"
    using updatePower_percentage [OF files_sysfs_reads [of ?ac "Some ''500''"] refl,
        of ovf_amd64]
    by (simp add: batteries_files_sample readval_sample_current p l power_line_def
        unpluggedSign_def time_remaining_sample del: batteries_files.simps)
  ultimately show ?thesis
    using p by simp
qed

text \<open>
  Claim C8, as stated, fails in both revisions. Reading one file per field, the sampler
  compares the whole content with \<^verbatim>\<open>"1\n"\<close>: a file holding the single character
  \<^verbatim>\<open>1\<close> gives the battery icon. Parsing uevent, it looks at the first byte only: the
  content \<^verbatim>\<open>10\<close> gives the plugged icon.
\<close>

theorem updatePower_single_char_counterexample:
  "updatePower ovf_amd64 (files_sysfs ''1'' (Some ''500'')) = ''BAT  50 [2:00]''
   \<and> updatePower_uevent ovf_amd64
       (uevent_sysfs ''10'' [''POWER_SUPPLY_ENERGY_FULL=2000'', ''POWER_SUPPLY_ENERGY_NOW=1000''])
     = Inr ''AC  50''"
proof -
  have p: "go_quo (go_mul 1000 100) 2000 = 50"
    by (simp add: go_arith)
  have l: "fmt_wd 3 50 = '' 50''"
    by (simp add: fmt_int)
  have "updatePower ovf_amd64 (files_sysfs ''1'' (Some ''500''))
      = ''BAT  50 [2:00]''"
    using updatePower_cases [OF files_sysfs_reads [of "''1''" "Some ''500''"] refl, of ovf_amd64]
    by (simp add: batteries_files_sample readval_sample_current p l power_line_def
        unpluggedSign_def time_remaining_sample del: batteries_files.simps)
  moreover have "updatePower_uevent ovf_amd64
       (uevent_sysfs ''10'' [''POWER_SUPPLY_ENERGY_FULL=2000'', ''POWER_SUPPLY_ENERGY_NOW=1000''])
     = Inr ''AC  50''"
    using updatePower_uevent_cases [OF uevent_sysfs_reads [of "''10''"
          "[''POWER_SUPPLY_ENERGY_FULL=2000'', ''POWER_SUPPLY_ENERGY_NOW=1000'']"] refl,
        of ovf_amd64]
    by (simp add: batteries_uevent_energy p l power_line_def pluggedSign_def
        del: batteries_uevent.simps)
  ultimately show ?thesis
    by simp
qed

text \<open>
  Claim C8, amended. With a readable \<^verbatim>\<open>AC/online\<close>, a readable directory and a
  non-zero full-energy total, the revision that reads one file per field shows the
  plugged icon exactly when the content of \<^verbatim>\<open>AC/online\<close> is the two bytes
  \<^verbatim>\<open>"1\n"\<close>; the revision that parses uevent shows it, for a non-empty file, exactly
  when the first byte is \<^verbatim>\<open>'1'\<close>. Otherwise the battery icon is shown.
\<close>

theorem updatePower_plugged_icon:
  "(ReadFile fs (powerSupply @ ''AC/online'') = Some plugged
      \<and> ReadDir fs powerSupply = Some batts
      \<and> enFull (batteries_files fs no_totals batts) \<noteq> 0 \<longrightarrow>
    ((\<exists>p r. updatePower ovf fs = power_line pluggedSign p r)
      \<longleftrightarrow> plugged = [CHR ''1'', CHR 0x0A]))
   \<and> (ReadFile fs' (powerSupply_uevent @ ''/AC/online'') = Some plugged'
      \<and> ReadDir fs' powerSupply_uevent = Some batts'
      \<and> enFull (batteries_uevent fs' no_totals batts') \<noteq> 0
      \<and> plugged' \<noteq> [] \<longrightarrow>
    ((\<exists>p r. updatePower_uevent ovf fs' = Inr (power_line pluggedSign p r))
      \<longleftrightarrow> hd plugged' = CHR ''1''))"
proof (intro conjI impI)
  assume a: "ReadFile fs (powerSupply @ ''AC/online'') = Some plugged
      \<and> ReadDir fs powerSupply = Some batts
      \<and> enFull (batteries_files fs no_totals batts) \<noteq> 0"
  then have "updatePower ovf fs =
      power_line (if plugged = [CHR ''1'', CHR 0x0A] then pluggedSign else unpluggedSign)
        (go_quo (go_mul (enNow (batteries_files fs no_totals batts)) 100)
           (enFull (batteries_files fs no_totals batts)))
        (if plugged \<noteq> [CHR ''1'', CHR 0x0A] \<and> curNow (batteries_files fs no_totals batts) \<noteq> 0
         then time_remaining ovf (enNow (batteries_files fs no_totals batts))
                (curNow (batteries_files fs no_totals batts))
         else [])"
    by (simp add: updatePower_cases [of fs plugged batts])
  then show "(\<exists>p r. updatePower ovf fs = power_line pluggedSign p r)
      \<longleftrightarrow> plugged = [CHR ''1'', CHR 0x0A]"
    using power_line_icon [symmetric] by (auto split: if_splits)
next
  assume a: "ReadFile fs' (powerSupply_uevent @ ''/AC/online'') = Some plugged'
      \<and> ReadDir fs' powerSupply_uevent = Some batts'
      \<and> enFull (batteries_uevent fs' no_totals batts') \<noteq> 0
      \<and> plugged' \<noteq> []"
  then have "updatePower_uevent ovf fs' =
      Inr (power_line (if hd plugged' = CHR ''1'' then pluggedSign else unpluggedSign)
        (go_quo (go_mul (enNow (batteries_uevent fs' no_totals batts')) 100)
           (enFull (batteries_uevent fs' no_totals batts')))
        (if hd plugged' \<noteq> CHR ''1'' \<and> curNow (batteries_uevent fs' no_totals batts') \<noteq> 0
         then time_remaining ovf (enNow (batteries_uevent fs' no_totals batts'))
                (curNow (batteries_uevent fs' no_totals batts'))
         else []))"
    by (simp add: updatePower_uevent_cases [of fs' plugged' batts'])
  then show "(\<exists>p r. updatePower_uevent ovf fs' = Inr (power_line pluggedSign p r))
      \<longleftrightarrow> hd plugged' = CHR ''1''"
    using power_line_icon [symmetric] by (auto split: if_splits)
qed

theorem updatePower_plugged_icon_witness:
  "(\<exists>p r. updatePower ovf_amd64 (files_sysfs [CHR ''1'', CHR 0x0A] None)
        = power_line pluggedSign p r)
   \<and> (\<exists>p r. updatePower_uevent ovf_amd64
        (uevent_sysfs ''10'' [''POWER_SUPPLY_ENERGY_FULL=2000'', ''POWER_SUPPLY_ENERGY_NOW=1000''])
        = Inr (power_line pluggedSign p r))"
proof -
  let ?fs = "files_sysfs [CHR ''1'', CHR 0x0A] None"
  let ?fs' = "uevent_sysfs ''10''
     [''POWER_SUPPLY_ENERGY_FULL=2000'', ''POWER_SUPPLY_ENERGY_NOW=1000'']"
  note w = updatePower_plugged_icon [of ?fs "[CHR ''1'', CHR 0x0A]" "[''AC'', ''BAT0'']"
      ovf_amd64 ?fs' "''10''" "[''AC'', ''BAT0'']"]
  have "\<exists>p r. updatePower ovf_amd64 ?fs = power_line pluggedSign p r"
    using conjunct1 [OF w]
    by (simp add: files_sysfs_reads batteries_files_sample del: batteries_files.simps)
  moreover have "\<exists>p r. updatePower_uevent ovf_amd64 ?fs' = Inr (power_line pluggedSign p r)"
    using conjunct2 [OF w]
    by (simp add: uevent_sysfs_reads batteries_uevent_energy del: batteries_uevent.simps)
  ultimately show ?thesis
    by simp
qed

lemma readval_file_unreadable:
  "(\<forall>f \<in> set field. ReadFile fs (path @ f) = None) \<Longrightarrow> readval_file fs path field = ''0''"
  by (induction field) simp_all

lemma readval_unreadable:
  assumes "\<forall>f \<in> set field. ReadFile fs (powerSupply @ name @ ''/'' @ f) = None"
  shows "readval fs name field = 0"
proof (rule readval_eq [OF _ TrimSpace_newline(5) Atoi_samples(4)])
  show "readval_file fs (powerSupply @ name @ ''/'') field = ''0''"
    using assms by (intro readval_file_unreadable) simp
qed

lemma curNow_batteries_files:
  assumes "\<forall>b \<in> set batts. HasPrefix b ''BAT'' \<longrightarrow>
             ReadFile fs (powerSupply @ b @ ''/current_now'') = None"
    and "curNow t = 0"
  shows "curNow (batteries_files fs t batts) = 0"
  using assms
proof (induction batts arbitrary: t)
  case Nil
  then show ?case by simp
next
  case (Cons b batts)
  have "curNow (battery_files fs t b) = 0"
  proof (cases "HasPrefix b ''BAT''")
    case True
    then have "readval fs b [''current_now''] = 0"
      using Cons.prems(1) by (intro readval_unreadable) simp
    then show ?thesis
      using True Cons.prems(2) by (simp add: battery_files_def go_add_def wrap64_def)
  next
    case False
    then show ?thesis
      using Cons.prems(2) by (simp add: battery_files_def)
  qed
  then show ?case
    using Cons by simp
qed

text \<open>
  Claim C10. \<open>readval\<close> is 0 when none of the candidate files can be read (the default
  content is the byte \<^verbatim>\<open>'0'\<close>) and when the trimmed content of the chosen file is not
  an integer. A battery directory whose \<^verbatim>\<open>current_now\<close> cannot be read therefore adds
  0 to the current total; when this holds for every battery directory the total is 0
  and the line ends after the percentage, with no time-remaining estimate.
\<close>

theorem readval_defaults_to_zero:
  "((\<forall>f \<in> set field. ReadFile fs (powerSupply @ name @ ''/'' @ f) = None) \<longrightarrow>
      readval_file fs (powerSupply @ name @ ''/'') field = ''0'' \<and> readval fs name field = 0)
   \<and> (Atoi (TrimSpace (readval_file fs (powerSupply @ name @ ''/'') field)) = None \<longrightarrow>
      readval fs name field = 0)
   \<and> (ReadFile fs (powerSupply @ name @ ''/current_now'') = None \<longrightarrow>
      readval fs name [''current_now''] = 0)
   \<and> ((\<forall>b \<in> set batts. HasPrefix b ''BAT'' \<longrightarrow>
          ReadFile fs (powerSupply @ b @ ''/current_now'') = None) \<longrightarrow>
      curNow (batteries_files fs no_totals batts) = 0
      \<and> (ReadFile fs (powerSupply @ ''AC/online'') = Some plugged
          \<and> ReadDir fs powerSupply = Some batts
          \<and> enFull (batteries_files fs no_totals batts) \<noteq> 0 \<longrightarrow>
         updatePower ovf fs =
           power_line (if plugged = [CHR ''1'', CHR 0x0A] then pluggedSign else unpluggedSign)
             (go_quo (go_mul (enNow (batteries_files fs no_totals batts)) 100)
                (enFull (batteries_files fs no_totals batts)))
             []))"
proof (intro conjI impI)
  assume "\<forall>f \<in> set field. ReadFile fs (powerSupply @ name @ ''/'' @ f) = None"
  then show "readval_file fs (powerSupply @ name @ ''/'') field = ''0''"
    by (intro readval_file_unreadable) simp
next
  assume "\<forall>f \<in> set field. ReadFile fs (powerSupply @ name @ ''/'' @ f) = None"
  then show "readval fs name field = 0"
    by (rule readval_unreadable)
next
  assume "Atoi (TrimSpace (readval_file fs (powerSupply @ name @ ''/'') field)) = None"
  then show "readval fs name field = 0"
    by (simp add: readval_def)
next
  assume "ReadFile fs (powerSupply @ name @ ''/current_now'') = None"
  then show "readval fs name [''current_now''] = 0"
    by (intro readval_unreadable) simp
next
  assume "\<forall>b \<in> set batts. HasPrefix b ''BAT'' \<longrightarrow>
            ReadFile fs (powerSupply @ b @ ''/current_now'') = None"
  then show "curNow (batteries_files fs no_totals batts) = 0"
    by (rule curNow_batteries_files) (simp add: no_totals_def)
next
  assume u: "\<forall>b \<in> set batts. HasPrefix b ''BAT'' \<longrightarrow>
            ReadFile fs (powerSupply @ b @ ''/current_now'') = None"
    and r: "ReadFile fs (powerSupply @ ''AC/online'') = Some plugged
          \<and> ReadDir fs powerSupply = Some batts
          \<and> enFull (batteries_files fs no_totals batts) \<noteq> 0"
  have "curNow (batteries_files fs no_totals batts) = 0"
    using u by (rule curNow_batteries_files) (simp add: no_totals_def)
  then show "updatePower ovf fs =
      power_line (if plugged = [CHR ''1'', CHR 0x0A] then pluggedSign else unpluggedSign)
        (go_quo (go_mul (enNow (batteries_files fs no_totals batts)) 100)
           (enFull (batteries_files fs no_totals batts)))
        []"
    using r updatePower_cases [of fs plugged batts _ ovf, OF _ _ refl] by simp
qed

theorem readval_defaults_to_zero_witness:
  "readval (files_sysfs [CHR ''0'', CHR 0x0A] None) ''BAT0'' [''current_now''] = 0
   \<and> curNow (batteries_files (files_sysfs [CHR ''0'', CHR 0x0A] None) no_totals
        [''AC'', ''BAT0'']) = 0
   \<and> updatePower ovf_amd64 (files_sysfs [CHR ''0'', CHR 0x0A] None) = ''BAT  50''"
proof -
  let ?fs = "files_sysfs [CHR ''0'', CHR 0x0A] None"
  note w = readval_defaults_to_zero [of "[''current_now'']" ?fs "''BAT0''"
      "[''AC'', ''BAT0'']" "[CHR ''0'', CHR 0x0A]" ovf_amd64]
  have unreadable: "ReadFile ?fs (powerSupply @ ''BAT0'' @ ''/current_now'') = None"
    by (simp add: files_sysfs_def powerSupply_def)
  then have all: "\<forall>b \<in> set [''AC'', ''BAT0'']. HasPrefix b ''BAT'' \<longrightarrow>
      ReadFile ?fs (powerSupply @ b @ ''/current_now'') = None"
    by (simp add: HasPrefix_def)
  have p: "go_quo (go_mul 1000 100) 2000 = 50"
    by (simp add: go_arith)
  have l: "fmt_wd 3 50 = '' 50''"
    by (simp add: fmt_int)
  have "readval ?fs ''BAT0'' [''current_now''] = 0"
    using w unreadable by blast
  moreover have c: "curNow (batteries_files ?fs no_totals [''AC'', ''BAT0'']) = 0"
    using w all by blast
  moreover have "updatePower ovf_amd64 ?fs =
      power_line unpluggedSign
        (go_quo (go_mul (enNow (batteries_files ?fs no_totals [''AC'', ''BAT0''])) 100)
           (enFull (batteries_files ?fs no_totals [''AC'', ''BAT0''])))
        []"
  proof -
    have "enFull (batteries_files ?fs no_totals [''AC'', ''BAT0'']) \<noteq> 0"
      by (simp add: batteries_files_sample del: batteries_files.simps)
    then show ?thesis
      using w all files_sysfs_reads [of "[CHR ''0'', CHR 0x0A]" None] by simp
  qed
  then have "updatePower ovf_amd64 ?fs = ''BAT  50''"
    by (simp add: batteries_files_sample p l power_line_def unpluggedSign_def
        del: batteries_files.simps)
  ultimately show ?thesis
    by (simp only: simp_thms)
qed

section \<open>Properties of the rate formatter\<close>

lemma bit_len_bounds: "0 < n \<Longrightarrow> 2 ^ (bit_len n - 1) \<le> n \<and> n < 2 ^ bit_len n"
proof (induction n rule: bit_len.induct)
  case (1 n)
  show ?case
  proof (cases "n div 2 = 0")
    case True
    then have "n = 1"
      using "1.prems" by presburger
    then show ?thesis
      by (simp add: bit_len.simps)
  next
    case False
    then have ih: "2 ^ (bit_len (n div 2) - 1) \<le> n div 2" "n div 2 < 2 ^ bit_len (n div 2)"
      using "1.IH" "1.prems" by simp_all
    have b: "bit_len n = Suc (bit_len (n div 2))"
      using "1.prems" by (simp add: bit_len.simps [of n])
    have pos: "0 < bit_len (n div 2)"
      using False by (simp add: bit_len.simps [of "n div 2"])
    then have "(2::nat) ^ bit_len (n div 2) = 2 * 2 ^ (bit_len (n div 2) - 1)"
      by (cases "bit_len (n div 2)") simp_all
    then have lo: "2 ^ bit_len (n div 2) \<le> n"
      using ih(1) by presburger
    have hi: "n < 2 * 2 ^ bit_len (n div 2)"
      using ih(2) by presburger
    show ?thesis
      using lo hi by (simp add: b)
  qed
qed

lemma rhe_div_one: "rhe_div p 1 = p"
  by (simp add: rhe_div_def)

lemma rhe_div_lower:
  assumes "0 < q" and "a * q \<le> p"
  shows "a \<le> rhe_div p q"
proof -
  have "a * q div q \<le> p div q"
    using assms by (intro zdiv_mono1) simp_all
  then have "a \<le> p div q"
    using assms by simp
  then show ?thesis
    by (simp add: rhe_div_def Let_def)
qed

lemma rhe_div_upper:
  assumes "0 < q" and "p \<le> b * q"
  shows "rhe_div p q \<le> b"
proof -
  have "p div q \<le> b * q div q"
    using assms by (intro zdiv_mono1) simp_all
  then have f: "p div q \<le> b"
    using assms by simp
  show ?thesis
  proof (cases "p mod q = 0")
    case True
    then show ?thesis
      using f assms by (simp add: rhe_div_def Let_def)
  next
    case False
    then have "0 < p mod q"
      using assms(1) by (simp add: order_less_le)
    moreover have "p = (p div q) * q + p mod q"
      by simp
    ultimately have "(p div q) * q < b * q"
      using assms(2) by linarith
    then have "p div q < b"
      using assms(1) by (simp add: mult_less_cancel_right)
    then show ?thesis
      by (simp add: rhe_div_def Let_def)
  qed
qed

lemma bit_len_int:
  assumes "0 < n"
  shows "0 < bit_len (nat n)" "(2::int) ^ (bit_len (nat n) - 1) \<le> n" "n < 2 ^ bit_len (nat n)"
proof -
  have pos: "0 < nat n"
    using assms by simp
  show "0 < bit_len (nat n)"
    using pos by (simp add: bit_len.simps [of "nat n"])
  have "int (2 ^ (bit_len (nat n) - 1)) \<le> int (nat n)"
    using bit_len_bounds [OF pos] by (simp only: of_nat_le_iff)
  then show "(2::int) ^ (bit_len (nat n) - 1) \<le> n"
    using assms by simp
  have "int (nat n) < int (2 ^ bit_len (nat n))"
    using bit_len_bounds [OF pos] by (simp only: of_nat_less_iff)
  then show "n < 2 ^ bit_len (nat n)"
    using assms by simp
qed

lemma flog2_int:
  assumes "0 < n"
  shows "flog2 n 1 = int (bit_len (nat n)) - 1"
proof -
  let ?b = "bit_len (nat n)"
  have one: "bit_len (Suc 0) = Suc 0"
    by (simp add: bit_len.simps)
  have "(2::int) ^ ?b = 2 * 2 ^ (?b - 1)"
    using bit_len_int(1) [OF assms] by (cases ?b) simp_all
  then have "(2::int) ^ ?b \<le> n * 2"
    using bit_len_int(2) [OF assms] by simp
  then show ?thesis
    by (simp add: flog2_def one Let_def)
qed

lemma f32_of_int_small:
  assumes "0 \<le> n" and "n < 2 ^ 24"
  shows "f32_ge (f32_of_int n) (F32 c 1) = (c \<le> n)"
proof (cases "n = 0")
  case True
  then show ?thesis
    by (simp add: f32_of_int_def f32_round_def f32_ge_def)
next
  case False
  then have pos: "0 < n"
    using assms by simp
  let ?b = "bit_len (nat n)"
  have lt: "(2::int) ^ (?b - 1) < 2 ^ 24"
    using bit_len_int(2) [OF pos] assms(2) by linarith
  have "?b - 1 < 24"
    by (rule power_less_imp_less_exp [OF _ lt]) simp
  then have e: "int ?b - 1 \<le> 23"
    by simp
  have r: "f32_of_int n =
      (if 23 \<le> int ?b - 1 then F32 (n * 2 ^ nat (23 - (int ?b - 1))) 1
       else F32 (n * 2 ^ nat (23 - (int ?b - 1))) (2 ^ nat (23 - (int ?b - 1))))"
    using pos e by (simp add: f32_of_int_def f32_round_def flog2_int rhe_div_one Let_def)
  show ?thesis
  proof (cases "23 \<le> int ?b - 1")
    case True
    then have "nat (23 - (int ?b - 1)) = 0"
      by simp
    then show ?thesis
      using True r by (simp add: f32_ge_def)
  next
    case False
    then show ?thesis
      using r by (simp add: f32_ge_def)
  qed
qed

lemma f32_of_int_big:
  assumes "2 ^ 24 \<le> n"
  shows "f32_of_int n =
      F32 (rhe_div n (2 ^ (bit_len (nat n) - 24)) * 2 ^ (bit_len (nat n) - 24)) 1"
    and "25 \<le> bit_len (nat n)"
proof -
  have pos: "0 < n"
    using assms by (smt (verit) zero_less_power)
  let ?b = "bit_len (nat n)"
  have lt: "(2::int) ^ 24 < 2 ^ ?b"
    using bit_len_int(3) [OF pos] assms by linarith
  have "24 < ?b"
    by (rule power_less_imp_less_exp [OF _ lt]) simp
  then show b: "25 \<le> ?b"
    by simp
  then have "nat (int ?b - 1 - 23) = ?b - 24"
    by simp
  then show "f32_of_int n = F32 (rhe_div n (2 ^ (?b - 24)) * 2 ^ (?b - 24)) 1"
    using pos b by (simp add: f32_of_int_def f32_round_def flog2_int Let_def)
qed

lemma f32_of_int_big_bounds:
  assumes "2 ^ 24 \<le> n"
  obtains k v where "bit_len (nat n) = k + 24" and "0 < k" and "f32_of_int n = F32 v 1"
    and "v = rhe_div n (2 ^ k) * 2 ^ k" and "2 ^ (k + 23) \<le> v" and "v \<le> 2 ^ (k + 24)"
    and "2 ^ (k + 23) \<le> n" and "n < 2 ^ (k + 24)"
proof -
  have pos: "0 < n"
    using assms by (smt (verit) zero_less_power)
  define k where "k = bit_len (nat n) - 24"
  have b: "bit_len (nat n) = k + 24" and kpos: "0 < k"
    using f32_of_int_big(2) [OF assms] by (simp_all add: k_def)
  define v where "v = rhe_div n (2 ^ k) * 2 ^ k"
  have f: "f32_of_int n = F32 v 1"
    using f32_of_int_big(1) [OF assms] by (simp add: v_def k_def)
  have lo: "(2::int) ^ (k + 23) \<le> n"
    using bit_len_int(2) [OF pos] by (simp add: b add.commute)
  have hi: "n < (2::int) ^ (k + 24)"
    using bit_len_int(3) [OF pos] by (simp add: b)
  have "(2::int) ^ 23 \<le> rhe_div n (2 ^ k)"
    using lo by (intro rhe_div_lower) (simp_all add: power_add mult.commute)
  then have vlo: "2 ^ (k + 23) \<le> v"
    by (simp add: v_def power_add mult.commute)
  have "rhe_div n (2 ^ k) \<le> (2::int) ^ 24"
    using hi by (intro rhe_div_upper) (simp_all add: power_add mult.commute)
  then have vhi: "v \<le> 2 ^ (k + 24)"
    by (simp add: v_def power_add mult.commute)
  show thesis
    using that [OF b kpos f v_def vlo vhi lo hi] .
qed

lemma f32_ge_small_const:
  assumes "0 \<le> n" and "c \<le> 2 ^ 24"
  shows "f32_ge (f32_of_int n) (F32 c 1) = (c \<le> n)"
proof (cases "n < 2 ^ 24")
  case True
  then show ?thesis
    using assms(1) by (rule f32_of_int_small [rotated])
next
  case False
  then have big: "2 ^ 24 \<le> n"
    by simp
  from big obtain k v where kv: "f32_of_int n = F32 v 1" "(2::int) ^ (k + 23) \<le> v" "0 < k"
    by (rule f32_of_int_big_bounds)
  have "(2::int) ^ (1 + 23) \<le> 2 ^ (k + 23)"
    using kv(3) by (intro power_increasing) simp_all
  then have "2 ^ 24 \<le> v"
    using kv(2) by simp
  then show ?thesis
    using big assms(2) by (simp add: kv(1) f32_ge_def)
qed

lemma rhe_div_64_ceiling:
  "(1048576000 \<le> rhe_div n 64 * 64) = (1048575968 \<le> n)"
proof -
  define f where "f = n div 64"
  define r where "r = n mod 64"
  have n: "n = 64 * f + r" and r: "0 \<le> r" "r < 64"
    by (simp_all add: f_def r_def)
  have "f = 16383999 \<Longrightarrow> odd f"
    by simp
  then have "(1048576000 \<le> (if 2 * r < 64 then f else if 64 < 2 * r then f + 1
                else if even f then f else f + 1) * 64) = (1048575968 \<le> 64 * f + r)"
    using r by (cases "f \<le> 16383998"; cases "f = 16383999") auto
  then show ?thesis
    unfolding rhe_div_def Let_def f_def [symmetric] r_def [symmetric] n [symmetric] .
qed

lemma f32_ge_ceiling:
  assumes "0 \<le> n"
  shows "f32_ge (f32_of_int n) (F32 1048576000 1) = (1048575968 \<le> n)"
proof (cases "n < 2 ^ 24")
  case True
  then show ?thesis
    using assms by (simp add: f32_of_int_small)
next
  case False
  then have big: "2 ^ 24 \<le> n"
    by simp
  from big obtain k v where kv: "f32_of_int n = F32 v 1" "v = rhe_div n (2 ^ k) * 2 ^ k"
      "(2::int) ^ (k + 23) \<le> v" "v \<le> 2 ^ (k + 24)" "2 ^ (k + 23) \<le> n" "n < 2 ^ (k + 24)"
    by (rule f32_of_int_big_bounds)
  consider "k \<le> 5" | "k = 6" | "7 \<le> k"
    by linarith
  then show ?thesis
  proof cases
    case 1
    then have "(2::int) ^ (k + 24) \<le> 2 ^ (5 + 24)"
      by (intro power_increasing) simp_all
    then have "v < 1048576000" "n < 1048575968"
      using kv(4) kv(6) by simp_all
    then show ?thesis
      by (simp add: kv(1) f32_ge_def)
  next
    case 2
    then show ?thesis
      using rhe_div_64_ceiling [of n] by (simp add: kv(1) kv(2) f32_ge_def)
  next
    case 3
    then have "(2::int) ^ (7 + 23) \<le> 2 ^ (k + 23)"
      by (intro power_increasing) simp_all
    then have "1048576000 \<le> v" "1048575968 \<le> n"
      using kv(3) kv(5) by simp_all
    then show ?thesis
      by (simp add: kv(1) f32_ge_def)
  qed
qed

text \<open>
  Claim C1, as stated, fails in two places. The rate 1048575999 lies below
  \<^verbatim>\<open>1000*1024*1024\<close>, yet its conversion to \<^verbatim>\<open>float32\<close> rounds up to 1048576000 and
  the overflow marker is returned instead of a MiB/s value. And the marker for a negative
  rate is not the plain text \<^verbatim>\<open>" ERR"\<close>: the source literal holds the colour escapes
  0x03 and 0x01 around \<^verbatim>\<open>ERR\<close>.
\<close>

theorem fixed_ceiling_counterexample:
  "(1000 * 1024 \<le> (1048575999 :: int) \<and> (1048575999 :: int) < 1000 * 1024 * 1024)
   \<and> fixed ''RX'' 1048575999 = [CHR 0x04] @ ''RX'' @ [CHR 0x03] @ ''ERR'' @ [CHR 0x01]
   \<and> fixed ''RX'' (- 1) = ''RX '' @ [CHR 0x03] @ ''ERR'' @ [CHR 0x01]
   \<and> fixed ''RX'' (- 1) \<noteq> ''RX'' @ '' ERR''"
  by (simp add: fixed_def f32_eval errMark_def)

text \<open>
  Claim C1, amended. For every label and integer rate: a negative rate gives the label,
  a space and \<^verbatim>\<open>ERR\<close> between the bytes 0x03 and 0x01; a rate of at least
  \<^verbatim>\<open>1000*1024*1024 - 32\<close> (every such rate converts to a \<^verbatim>\<open>float32\<close> of at least
  \<^verbatim>\<open>1000*1024*1024\<close>) gives the overflow marker, the label between 0x04 and the same
  \<^verbatim>\<open>ERR\<close>; from \<^verbatim>\<open>1000*1024\<close> up to that bound the rate is divided by
  \<^verbatim>\<open>1024*1024\<close> and shown with \<^verbatim>\<open>MiB/s\<close>, the label between 0x04 and 0x01; from 1000
  up to \<^verbatim>\<open>1000*1024\<close> it is divided by 1024 and shown with \<^verbatim>\<open>KiB/s\<close>; from 0 up to
  1000 it is shown as it is with \<^verbatim>\<open>B/s\<close>.
\<close>

theorem fixed_tiers:
  "(rate < 0 \<longrightarrow> fixed pre rate = pre @ '' '' @ errMark)
   \<and> (1048575968 \<le> rate \<longrightarrow> fixed pre rate = [CHR 0x04] @ pre @ errMark)
   \<and> (1024000 \<le> rate \<and> rate < 1048575968 \<longrightarrow>
        fixed pre rate =
          [CHR 0x04] @ pre @ [CHR 0x01] @
          Replace1 (formated (f32_quo (f32_of_int rate) (F32 1048576 1))) (CHR ''.'')
            floatSeparator @ mibpsSign)
   \<and> (1000 \<le> rate \<and> rate < 1024000 \<longrightarrow>
        fixed pre rate =
          pre @
          Replace1 (formated (f32_quo (f32_of_int rate) (F32 1024 1))) (CHR ''.'')
            floatSeparator @ kibpsSign)
   \<and> (0 \<le> rate \<and> rate < 1000 \<longrightarrow>
        fixed pre rate =
          pre @ Replace1 (formated (f32_of_int rate)) (CHR ''.'') floatSeparator @ bpsSign)"
proof (intro conjI impI)
  assume "rate < 0"
  then show "fixed pre rate = pre @ '' '' @ errMark"
    by (simp add: fixed_def)
next
  assume "1048575968 \<le> rate"
  then show "fixed pre rate = [CHR 0x04] @ pre @ errMark"
    by (simp add: fixed_def f32_ge_ceiling)
next
  assume "1024000 \<le> rate \<and> rate < 1048575968"
  then show "fixed pre rate =
      [CHR 0x04] @ pre @ [CHR 0x01] @
      Replace1 (formated (f32_quo (f32_of_int rate) (F32 1048576 1))) (CHR ''.'')
        floatSeparator @ mibpsSign"
    by (simp add: fixed_def f32_ge_ceiling f32_ge_small_const)
next
  assume "1000 \<le> rate \<and> rate < 1024000"
  then show "fixed pre rate =
      pre @
      Replace1 (formated (f32_quo (f32_of_int rate) (F32 1024 1))) (CHR ''.'')
        floatSeparator @ kibpsSign"
    by (simp add: fixed_def f32_ge_ceiling f32_ge_small_const)
next
  assume "0 \<le> rate \<and> rate < 1000"
  then show "fixed pre rate =
      pre @ Replace1 (formated (f32_of_int rate)) (CHR ''.'') floatSeparator @ bpsSign"
    by (simp add: fixed_def f32_ge_ceiling f32_ge_small_const)
qed

theorem fixed_tiers_witness:
  "fixed ''RX'' (- 5) = ''RX '' @ errMark
   \<and> fixed ''RX'' 1048576000 = [CHR 0x04] @ ''RX'' @ errMark
   \<and> fixed ''RX'' 2000000 = [CHR 0x04] @ ''RX'' @ [CHR 0x01] @ '' 1.9MiB/s''
   \<and> fixed ''RX'' 2000 = ''RX 2.0KiB/s''
   \<and> fixed ''RX'' 500 = ''RX500B/s''"
proof -
  have m: "formated (f32_quo (f32_of_int 2000000) (F32 1048576 1)) = '' 1.9''"
    by (simp add: f32_eval fmt_float)
  have k: "formated (f32_quo (f32_of_int 2000) (F32 1024 1)) = '' 2.0''"
    by (simp add: f32_eval fmt_float)
  have b: "formated (f32_of_int 500) = ''500''"
    by (simp add: f32_eval fmt_float)
  have "fixed ''RX'' (- 5) = ''RX '' @ errMark"
    using fixed_tiers [of "- 5" "''RX''"] by simp
  moreover have "fixed ''RX'' 1048576000 = [CHR 0x04] @ ''RX'' @ errMark"
    using fixed_tiers [of 1048576000 "''RX''"] by simp
  moreover have "fixed ''RX'' 2000000 = [CHR 0x04] @ ''RX'' @ [CHR 0x01] @ '' 1.9MiB/s''"
    using fixed_tiers [of 2000000 "''RX''"] by (simp add: m floatSeparator_def mibpsSign_def)
  moreover have "fixed ''RX'' 2000 = ''RX 2.0KiB/s''"
    using fixed_tiers [of 2000 "''RX''"] by (simp add: k floatSeparator_def kibpsSign_def)
  moreover have "fixed ''RX'' 500 = ''RX500B/s''"
    using fixed_tiers [of 500 "''RX''"] by (simp add: b floatSeparator_def bpsSign_def)
  ultimately show ?thesis
    by (simp only: simp_thms)
qed

end
